theory Spec2Isabelle
  imports Complex_Main
begin

section \<open>Numbers, errors and rounding\<close>

text \<open>
  The calculators compute on Python numbers. They are modelled here as exact rationals
  (\<^typ>\<open>rat\<close>): addition, multiplication, division and comparison are the mathematical
  ones, and the rounding error of binary floating point is outside the model: where the
  code's floating-point result departs from the exact one in kind (a denominator that
  cancels to \<open>0.0\<close>, a power that overflows), the definitions below follow the exact
  value, and nothing is stated here about the code at such an input. The only
  non-finite value the source uses is \<open>float('inf')\<close>, as the upper bound of the last
  tax bracket; it is a constructor of its own. Python's \<open>int\<close> is \<^typ>\<open>int\<close>.

  A Python exception that the code does not catch is a value of \<open>py_error\<close>; a function
  that can raise returns \<open>py_error + 'a\<close>. A route answers with a JSON body:
  \<open>Ok\<close> is \<open>{"ok": True, "data": ...}\<close>, \<open>Unprocessable\<close> is the 422 answer
  \<open>{"ok": False, "error": ...}\<close>. The routes read their inputs with \<open>float(...)\<close> and
  \<open>int(...)\<close>; the models start from the values so read, a key with a default being
  optional.
\<close>

datatype py_error = ZeroDivisionError | IndexError | KeyError

datatype 'a response = Ok 'a | Unprocessable string

text \<open>
  \<open>round(x, nd)\<close> of Python rounds to \<open>nd\<close> decimals, a tie going to the even neighbour.
  The definition rounds the exact value. Python rounds the binary float, which near a
  decimal tie (a value ending in exactly half a cent) lies on one side of the tie, so the
  two can be a cent apart there; both are within half a cent of the exact value.
\<close>

definition round_half_even :: "rat \<Rightarrow> int" where
  "round_half_even x =
     (let f = \<lfloor>x\<rfloor>; d = x - of_int f
      in if d < 1 / 2 then f
         else if 1 / 2 < d then f + 1
         else if even f then f else f + 1)"

definition py_round :: "rat \<Rightarrow> nat \<Rightarrow> rat" where
  "py_round x nd = of_int (round_half_even (x * 10 ^ nd)) / 10 ^ nd"

text \<open>\<open>x / y\<close> on floats raises on a zero divisor.\<close>

definition py_div :: "rat \<Rightarrow> rat \<Rightarrow> py_error + rat" where
  "py_div x y = (if y = 0 then Inl ZeroDivisionError else Inr (x / y))"

text \<open>
  \<open>x ** n\<close> for a float \<open>x\<close> and an int \<open>n\<close>: zero to a negative power raises.
\<close>

definition py_pow :: "rat \<Rightarrow> int \<Rightarrow> py_error + rat" where
  "py_pow x n = (if x = 0 \<and> n < 0 then Inl ZeroDivisionError else Inr (x powi n))"

text \<open>\<open>str.upper()\<close> and \<open>str.lower()\<close>, on ASCII letters.\<close>

definition upper_char :: "char \<Rightarrow> char" where
  "upper_char c =
     (let n = (of_char c :: nat) in if 97 \<le> n \<and> n \<le> 122 then char_of (n - 32) else c)"

definition lower_char :: "char \<Rightarrow> char" where
  "lower_char c =
     (let n = (of_char c :: nat) in if 65 \<le> n \<and> n \<le> 90 then char_of (n + 32) else c)"

definition str_upper :: "string \<Rightarrow> string" where
  "str_upper s = map upper_char s"

definition str_lower :: "string \<Rightarrow> string" where
  "str_lower s = map lower_char s"

section \<open>Rate and policy tables (config.py)\<close>

text \<open>An upper bound of a bracket: a number, or \<open>float('inf')\<close>.\<close>

datatype bound = Finite rat | PosInf

type_synonym bracket = "bound \<times> rat"

definition US_STANDARD_DEDUCTION :: "string \<rightharpoonup> rat" where
  "US_STANDARD_DEDUCTION = map_of [(''single'', 15000), (''mfj'', 30000), (''hoh'', 22500)]"

definition US_TAX_BRACKETS :: "string \<rightharpoonup> bracket list" where
  "US_TAX_BRACKETS = map_of
     [(''single'',
        [(Finite 11925, 10 / 100), (Finite 48475, 12 / 100), (Finite 103350, 22 / 100),
         (Finite 197300, 24 / 100), (Finite 250525, 32 / 100), (Finite 626350, 35 / 100),
         (PosInf, 37 / 100)]),
      (''mfj'',
        [(Finite 23850, 10 / 100), (Finite 96950, 12 / 100), (Finite 206700, 22 / 100),
         (Finite 394600, 24 / 100), (Finite 501050, 32 / 100), (Finite 751600, 35 / 100),
         (PosInf, 37 / 100)]),
      (''hoh'',
        [(Finite 17000, 10 / 100), (Finite 64850, 12 / 100), (Finite 103350, 22 / 100),
         (Finite 197300, 24 / 100), (Finite 250500, 32 / 100), (Finite 626350, 35 / 100),
         (PosInf, 37 / 100)])]"

record us_fica =
  ss_rate :: rat
  ss_wage_base :: rat
  medicare_rate :: rat
  additional_medicare_rate :: rat
  additional_medicare_threshold_single :: rat
  additional_medicare_threshold_mfj :: rat

definition US_FICA :: us_fica where
  "US_FICA = \<lparr>ss_rate = 62 / 1000, ss_wage_base = 176100, medicare_rate = 145 / 10000,
     additional_medicare_rate = 9 / 1000, additional_medicare_threshold_single = 200000,
     additional_medicare_threshold_mfj = 250000\<rparr>"

definition US_STATE_TAX :: "string \<rightharpoonup> rat" where
  "US_STATE_TAX = map_of
     [(''CA'', 93 / 1000), (''NY'', 685 / 10000), (''NJ'', 637 / 10000), (''MA'', 5 / 100),
      (''IL'', 495 / 10000), (''TX'', 0), (''FL'', 0), (''WA'', 0), (''NV'', 0), (''AK'', 0),
      (''other'', 5 / 100)]"

definition UK_PERSONAL_ALLOWANCE :: rat where
  "UK_PERSONAL_ALLOWANCE = 12570"

definition UK_PA_TAPER_START :: rat where
  "UK_PA_TAPER_START = 100000"

definition UK_TAX_BRACKETS :: "bracket list" where
  "UK_TAX_BRACKETS = [(Finite 50270, 20 / 100), (Finite 125140, 40 / 100), (PosInf, 45 / 100)]"

record uk_ni_employee =
  lower_earnings_limit :: rat
  upper_earnings_limit :: rat
  rate_main :: rat
  rate_upper :: rat

definition UK_NI_EMPLOYEE :: uk_ni_employee where
  "UK_NI_EMPLOYEE = \<lparr>lower_earnings_limit = 6396, upper_earnings_limit = 50270,
     rate_main = 8 / 100, rate_upper = 2 / 100\<rparr>"

record india_regime =
  standard_deduction :: rat
  regime_brackets :: "bracket list"
  rebate_87a_limit :: rat
  cess_rate :: rat

definition INDIA_NEW_REGIME :: india_regime where
  "INDIA_NEW_REGIME = \<lparr>standard_deduction = 75000,
     regime_brackets =
       [(Finite 400000, 0), (Finite 800000, 5 / 100), (Finite 1200000, 10 / 100),
        (Finite 1600000, 15 / 100), (Finite 2000000, 20 / 100), (Finite 2400000, 25 / 100),
        (PosInf, 30 / 100)],
     rebate_87a_limit = 1200000, cess_rate = 4 / 100\<rparr>"

definition INDIA_OLD_REGIME :: india_regime where
  "INDIA_OLD_REGIME = \<lparr>standard_deduction = 50000,
     regime_brackets =
       [(Finite 250000, 0), (Finite 500000, 5 / 100), (Finite 1000000, 20 / 100),
        (PosInf, 30 / 100)],
     rebate_87a_limit = 500000, cess_rate = 4 / 100\<rparr>"

definition INDIA_SURCHARGE :: "bracket list" where
  "INDIA_SURCHARGE =
     [(Finite 5000000, 0), (Finite 10000000, 10 / 100), (Finite 20000000, 15 / 100),
      (Finite 50000000, 25 / 100), (PosInf, 25 / 100)]"

section \<open>Progressive tax engine (calculators/tax.py)\<close>

text \<open>\<open>x <= upper\<close> and \<open>min(x, upper)\<close> for a finite \<open>x\<close>.\<close>

fun le_bound :: "rat \<Rightarrow> bound \<Rightarrow> bool" where
  "le_bound x (Finite u) = (x \<le> u)"
| "le_bound x PosInf = True"

fun min_bound :: "rat \<Rightarrow> bound \<Rightarrow> rat" where
  "min_bound x (Finite u) = min x u"
| "min_bound x PosInf = x"

text \<open>
  One entry of the list \<open>applied\<close>. The source's \<open>"bracket"\<close> key holds a string that
  renders the two ends of the band (\<open>prev_upper\<close> and \<open>upper\<close>) with a currency sign; the
  record keeps the two ends themselves.
\<close>

record bracket_application =
  bracket_from :: rat
  bracket_to :: bound
  bracket_rate :: rat
  bracket_tax :: rat

text \<open>
  The loop of \<open>_apply_brackets\<close>, with its variables \<open>prev_upper\<close>, \<open>tax\<close> and \<open>applied\<close>
  as arguments. After a bracket whose bound is \<open>float('inf')\<close> the test
  \<open>taxable_income <= upper\<close> holds and the loop breaks, so \<open>prev_upper\<close> is finite
  whenever the next bracket is read. A table that ends without a break falls out of the
  \<open>for\<close> with what was accumulated.
\<close>

fun apply_brackets_loop ::
  "rat \<Rightarrow> rat \<Rightarrow> rat \<Rightarrow> bracket_application list \<Rightarrow> bracket list
    \<Rightarrow> rat \<times> bracket_application list" where
  "apply_brackets_loop taxable_income prev_upper tax applied [] = (tax, applied)"
| "apply_brackets_loop taxable_income prev_upper tax applied ((upper, rate) # brackets) =
     (if taxable_income \<le> prev_upper then (tax, applied)
      else
        let taxable_in_band = min_bound taxable_income upper - prev_upper;
            band_tax = taxable_in_band * rate;
            tax' = tax + band_tax;
            applied' = applied @
              [\<lparr>bracket_from = prev_upper, bracket_to = upper,
                bracket_rate = py_round (rate * 100) 1, bracket_tax = py_round band_tax 2\<rparr>]
        in case upper of
             PosInf \<Rightarrow> (tax', applied')
           | Finite u \<Rightarrow>
               if taxable_income \<le> u then (tax', applied')
               else apply_brackets_loop taxable_income u tax' applied' brackets)"

definition apply_brackets :: "rat \<Rightarrow> bracket list \<Rightarrow> rat \<times> bracket_application list" where
  "apply_brackets taxable_income brackets =
     (let (tax, applied) = apply_brackets_loop taxable_income 0 0 [] brackets
      in (py_round tax 2, applied))"

text \<open>
  \<open>_india_apply_brackets\<close> is the same loop; only the currency sign of the label differs.
\<close>

definition india_apply_brackets ::
  "rat \<Rightarrow> bracket list \<Rightarrow> rat \<times> bracket_application list" where
  "india_apply_brackets taxable_income brackets =
     (let (tax, applied) = apply_brackets_loop taxable_income 0 0 [] brackets
      in (py_round tax 2, applied))"

text \<open>\<open>_india_surcharge\<close>: the rate of the first slab that holds the income.\<close>

fun india_surcharge_loop :: "rat \<Rightarrow> rat \<Rightarrow> bracket list \<Rightarrow> rat" where
  "india_surcharge_loop base_tax income [] = 0"
| "india_surcharge_loop base_tax income ((upper, rate) # slabs) =
     (if le_bound income upper then py_round (base_tax * rate) 2
      else india_surcharge_loop base_tax income slabs)"

definition india_surcharge :: "rat \<Rightarrow> rat \<Rightarrow> rat" where
  "india_surcharge base_tax income = india_surcharge_loop base_tax income INDIA_SURCHARGE"

text \<open>
  The loop that every take-home function runs for \<open>marg_rate\<close>: it starts from 0 and
  takes the rate of the first bracket with \<open>taxable <= upper\<close>.
\<close>

fun marg_rate_loop :: "rat \<Rightarrow> bracket list \<Rightarrow> rat" where
  "marg_rate_loop taxable [] = 0"
| "marg_rate_loop taxable ((upper, rate) # brackets) =
     (if le_bound taxable upper then rate * 100 else marg_rate_loop taxable brackets)"

text \<open>
  The dictionary a take-home function returns. The \<open>"breakdown"\<close> dictionary has other
  keys in each country, so it is a list of keys and values.
\<close>

record take_home =
  gross_annual :: rat
  total_tax_out :: rat
  effective_rate :: rat
  marginal_rate :: rat
  take_home_annual :: rat
  breakdown :: "(string \<times> rat) list"
  tax_brackets_applied :: "bracket_application list"

text \<open>The first two assignments of \<open>_us_take_home\<close>, and its \<open>taxable\<close>.\<close>

definition us_filing :: "string \<Rightarrow> string" where
  "us_filing filing = (if US_TAX_BRACKETS filing \<noteq> None then filing else ''single'')"

definition us_taxable :: "rat \<Rightarrow> string \<Rightarrow> rat" where
  "us_taxable gross filing =
     (let std_ded = (case US_STANDARD_DEDUCTION (us_filing filing) of
                       Some d \<Rightarrow> d | None \<Rightarrow> 15000)
      in max (gross - std_ded) 0)"

definition us_take_home :: "rat \<Rightarrow> string \<Rightarrow> string \<Rightarrow> py_error + take_home" where
  "us_take_home gross filing state =
     (let taxable = us_taxable gross filing
      in case US_TAX_BRACKETS (us_filing filing) of
           None \<Rightarrow> Inl KeyError
         | Some table \<Rightarrow>
             let (fed_tax, brackets_applied) = apply_brackets taxable table;
                 ss_tax = min gross (ss_wage_base US_FICA) * ss_rate US_FICA;
                 med_tax = gross * medicare_rate US_FICA;
                 add_med = max (gross - additional_medicare_threshold_single US_FICA) 0
                             * additional_medicare_rate US_FICA
             in case US_STATE_TAX ''other'' of
                  None \<Rightarrow> Inl KeyError
                | Some other_rate \<Rightarrow>
                    let state_rate = (case US_STATE_TAX state of
                                        Some sr \<Rightarrow> sr | None \<Rightarrow> other_rate);
                        state_tax = gross * state_rate;
                        total_tax = fed_tax + ss_tax + med_tax + add_med + state_tax;
                        take_home = gross - total_tax;
                        eff_rate = (if gross > 0 then total_tax / gross * 100 else 0);
                        marg_rate = marg_rate_loop taxable table
                    in Inr \<lparr>gross_annual = py_round gross 2,
                            total_tax_out = py_round total_tax 2,
                            effective_rate = py_round eff_rate 2,
                            marginal_rate = py_round marg_rate 1,
                            take_home_annual = py_round take_home 2,
                            breakdown =
                              [(''federal_tax'', py_round fed_tax 2),
                               (''state_tax'', py_round state_tax 2),
                               (''social_security'', py_round ss_tax 2),
                               (''medicare'', py_round (med_tax + add_med) 2)],
                            tax_brackets_applied = brackets_applied\<rparr>)"

definition uk_taxable :: "rat \<Rightarrow> rat" where
  "uk_taxable gross =
     (let pa = UK_PERSONAL_ALLOWANCE;
          pa = (if gross > UK_PA_TAPER_START
                then max (pa - (gross - UK_PA_TAPER_START) / 2) 0 else pa)
      in max (gross - pa) 0)"

definition uk_take_home :: "rat \<Rightarrow> take_home" where
  "uk_take_home gross =
     (let taxable = uk_taxable gross;
          (income_tax, brackets_applied) = apply_brackets taxable UK_TAX_BRACKETS;
          lower = lower_earnings_limit UK_NI_EMPLOYEE;
          upper = upper_earnings_limit UK_NI_EMPLOYEE;
          ni = (if gross > lower
                then (min gross upper * rate_main UK_NI_EMPLOYEE
                      + (if gross > upper then (gross - upper) * rate_upper UK_NI_EMPLOYEE
                         else 0))
                     - lower * rate_main UK_NI_EMPLOYEE
                else 0);
          total_tax = income_tax + ni;
          take_home = gross - total_tax;
          eff_rate = (if gross > 0 then total_tax / gross * 100 else 0);
          marg_rate = marg_rate_loop taxable UK_TAX_BRACKETS
      in \<lparr>gross_annual = py_round gross 2,
          total_tax_out = py_round total_tax 2,
          effective_rate = py_round eff_rate 2,
          marginal_rate = py_round marg_rate 1,
          take_home_annual = py_round take_home 2,
          breakdown =
            [(''income_tax'', py_round income_tax 2),
             (''national_insurance'', py_round ni 2)],
          tax_brackets_applied = brackets_applied\<rparr>)"

definition india_take_home :: "rat \<Rightarrow> string \<Rightarrow> take_home" where
  "india_take_home gross regime =
     (let cfg = (if regime = ''new'' then INDIA_NEW_REGIME else INDIA_OLD_REGIME);
          std_ded = standard_deduction cfg;
          taxable = max (gross - std_ded) 0;
          (base_tax, brackets_applied) = india_apply_brackets taxable (regime_brackets cfg);
          base_tax = (if taxable \<le> rebate_87a_limit cfg then 0 else base_tax);
          surcharge = india_surcharge base_tax gross;
          cess = (base_tax + surcharge) * cess_rate cfg;
          total_tax = base_tax + surcharge + cess;
          take_home = gross - total_tax;
          eff_rate = (if gross > 0 then total_tax / gross * 100 else 0);
          marg_rate = marg_rate_loop taxable (regime_brackets cfg)
      in \<lparr>gross_annual = py_round gross 2,
          total_tax_out = py_round total_tax 2,
          effective_rate = py_round eff_rate 2,
          marginal_rate = py_round marg_rate 1,
          take_home_annual = py_round take_home 2,
          breakdown =
            [(''income_tax'', py_round base_tax 2),
             (''surcharge'', py_round surcharge 2),
             (''cess'', py_round cess 2)],
          tax_brackets_applied = brackets_applied\<rparr>)"

text \<open>
  The body of a request to \<open>/api/tax/take-home-pay\<close>. The key \<open>gross_income\<close> is
  required: without it \<open>data["gross_income"]\<close> raises \<open>KeyError\<close>, which the route
  catches and answers with \<open>str(exc)\<close>, the key in quotes. The other keys are optional
  strings.
\<close>

record take_home_request =
  req_gross_income :: "rat option"
  req_country :: "string option"
  req_filing_status :: "string option"
  req_state :: "string option"
  req_pay_frequency :: "string option"
  req_regime :: "string option"

record take_home_data = take_home +
  take_home_per_period :: rat

definition api_take_home_pay :: "take_home_request \<Rightarrow> py_error + take_home_data response" where
  "api_take_home_pay data =
     (case req_gross_income data of
        None \<Rightarrow> Inr (Unprocessable (CHR 0x27 # ''gross_income'' @ [CHR 0x27]))
      | Some gross \<Rightarrow>
      let country = str_upper (case req_country data of Some c \<Rightarrow> c | None \<Rightarrow> ''US'');
          filing = str_lower (case req_filing_status data of Some f \<Rightarrow> f | None \<Rightarrow> ''single'');
          state = (case req_state data of Some s \<Rightarrow> s | None \<Rightarrow> ''other'');
          pay_freq = (case req_pay_frequency data of Some p \<Rightarrow> p | None \<Rightarrow> ''annual'');
          regime = (case req_regime data of Some g \<Rightarrow> g | None \<Rightarrow> ''new'');
          freq_divisor =
            (case map_of [(''annual'', 1), (''monthly'', 12), (''biweekly'', 26)] pay_freq of
               Some d \<Rightarrow> d | None \<Rightarrow> (1 :: rat));
          finish = (\<lambda>result.
             case py_div (take_home_annual result) freq_divisor of
               Inl e \<Rightarrow> Inl e
             | Inr per_period \<Rightarrow>
                 Inr (Ok (take_home.extend result
                            \<lparr>take_home_per_period = py_round per_period 2\<rparr>)))
      in if country = ''US'' then
           (case us_take_home gross filing state of
              Inl e \<Rightarrow> Inl e
            | Inr result \<Rightarrow> finish result)
         else if country = ''UK'' then finish (uk_take_home gross)
         else if country = ''IN'' then finish (india_take_home gross regime)
         else Inr (Unprocessable ''Country must be US, UK, or IN''))"


section \<open>Annuity engine (calculators/mortgage.py)\<close>

text \<open>
  \<open>_monthly_payment\<close>. The test \<open>if term_months\<close> is \<open>term_months != 0\<close>. In the annuity
  branch the power and the division can raise. The parameter \<open>principal\<close> is written
  \<open>principal'\<close>, the plain name being a constant of the logic.

  The definition computes the formula exactly. The code computes it in binary64, where
  the denominator \<open>(1 + r) ** term_months - 1\<close> loses its digits for a tiny \<open>r\<close>: for an
  annual rate below about \<open>1.3e-13\<close> the sum \<open>1 + r\<close> is \<open>1.0\<close>, the denominator is \<open>0.0\<close>
  and the code raises \<open>ZeroDivisionError\<close>; for rates a little above, it returns a
  payment far from the annuity's; and a power beyond the range of a float raises
  \<open>OverflowError\<close>. At such inputs this definition is not the code.
\<close>

definition monthly_payment :: "rat \<Rightarrow> rat \<Rightarrow> int \<Rightarrow> py_error + rat" where
  "monthly_payment principal' annual_rate_pct term_months =
     (if annual_rate_pct = 0 then
        (if term_months \<noteq> 0 then py_div principal' (of_int term_months) else Inr 0)
      else
        let r = annual_rate_pct / 100 / 12
        in case py_pow (1 + r) term_months of
             Inl e \<Rightarrow> Inl e
           | Inr p \<Rightarrow> py_div (principal' * (r * p)) (p - 1))"

text \<open>One row of an amortization table or of a payoff schedule (the same keys).\<close>

record schedule_row =
  row_month :: int
  row_payment :: rat
  row_principal :: rat
  row_interest :: rat
  row_balance :: rat

text \<open>
  The \<open>for m in range(1, term_months + 1)\<close> of \<open>_amortize\<close>, over the list of months.
  The balances are exact here, as the payment is.
\<close>

fun amortize_loop ::
  "rat \<Rightarrow> rat \<Rightarrow> rat \<Rightarrow> schedule_row list \<Rightarrow> int list \<Rightarrow> schedule_row list" where
  "amortize_loop r payment balance schedule [] = schedule"
| "amortize_loop r payment balance schedule (m # ms) =
     (let interest = balance * r;
          principal_paid = payment - interest;
          balance' = max (balance - principal_paid) 0
      in amortize_loop r payment balance'
           (schedule @
              [\<lparr>row_month = m, row_payment = py_round payment 2,
                row_principal = py_round principal_paid 2,
                row_interest = py_round interest 2,
                row_balance = py_round balance' 2\<rparr>]) ms)"

definition amortize :: "rat \<Rightarrow> rat \<Rightarrow> int \<Rightarrow> py_error + schedule_row list" where
  "amortize principal' annual_rate_pct term_months =
     (let r = annual_rate_pct / 100 / 12
      in case monthly_payment principal' annual_rate_pct term_months of
           Inl e \<Rightarrow> Inl e
         | Inr payment \<Rightarrow> Inr (amortize_loop r payment principal' [] [1..term_months]))"

section \<open>Rent versus buy (calculators/mortgage.py)\<close>

record rent_vs_buy_request =
  rvb_home_price :: rat
  rvb_down_payment_pct :: rat
  rvb_mortgage_rate :: rat
  rvb_term_years :: int
  rvb_annual_home_growth :: rat
  rvb_monthly_rent :: rat
  rvb_annual_rent_increase :: rat
  rvb_investment_return :: rat
  rvb_property_tax_rate :: rat
  rvb_maintenance_pct :: rat
  rvb_insurance_monthly :: rat
  rvb_years :: int

record yearly_row =
  yr_year :: int
  yr_buy_net_worth :: rat
  yr_rent_net_worth :: rat
  yr_cumulative_buy_cost :: rat
  yr_cumulative_rent_cost :: rat

record rent_vs_buy_data =
  breakeven_year_out :: "int option"
  buy_net_worth_at_horizon :: rat
  rent_net_worth_at_horizon :: rat
  recommendation :: string
  yearly_comparison :: "yearly_row list"

text \<open>The variables that the yearly loop of \<open>api_rent_vs_buy\<close> updates.\<close>

record rvb_state =
  st_home_value :: rat
  st_rent :: rat
  st_renter_portfolio :: rat
  st_cumulative_buy_cost :: rat
  st_cumulative_rent_cost :: rat
  st_breakeven_year :: "int option"
  st_yearly :: "yearly_row list"

text \<open>The inner \<open>for _ in range(12)\<close>: a month of return, then the invested difference.\<close>

fun invest_months :: "nat \<Rightarrow> rat \<Rightarrow> rat \<Rightarrow> rat \<Rightarrow> rat" where
  "invest_months 0 monthly_invest_ret monthly_diff renter_portfolio = renter_portfolio"
| "invest_months (Suc k) monthly_invest_ret monthly_diff renter_portfolio =
     (let renter_portfolio = renter_portfolio * (1 + monthly_invest_ret);
          renter_portfolio =
            (if monthly_diff > 0 then renter_portfolio + monthly_diff else renter_portfolio)
      in invest_months k monthly_invest_ret monthly_diff renter_portfolio)"

text \<open>
  One pass of the \<open>for yr in range(1, years + 1)\<close>. The slice
  \<open>amort[(yr - 1) * 12: yr * 12]\<close> is \<open>take 12 (drop ((yr - 1) * 12) amort)\<close>, \<open>yr\<close> being
  at least 1.
\<close>

definition rvb_year ::
  "rent_vs_buy_request \<Rightarrow> rat \<Rightarrow> rat \<Rightarrow> schedule_row list \<Rightarrow> int \<Rightarrow> rvb_state \<Rightarrow> rvb_state" where
  "rvb_year data loan monthly_pmt amort yr st =
     (let home_price = rvb_home_price data;
          monthly_invest_ret = rvb_investment_return data / 100 / 12;
          chunk = take 12 (drop (nat ((yr - 1) * 12)) amort);
          principal_paid_yr = sum_list (map row_principal chunk);
          interest_paid_yr = sum_list (map row_interest chunk);
          balance_end = (if chunk \<noteq> [] then row_balance (last chunk) else loan);
          home_value = st_home_value st * (1 + rvb_annual_home_growth data / 100);
          buyer_equity = home_value - balance_end;
          prop_tax_annual = home_price * rvb_property_tax_rate data / 100;
          maintenance_annual = home_price * rvb_maintenance_pct data / 100;
          insurance_annual = rvb_insurance_monthly data * 12;
          buy_annual_cost =
            interest_paid_yr + prop_tax_annual + maintenance_annual + insurance_annual;
          cumulative_buy_cost = st_cumulative_buy_cost st + buy_annual_cost;
          rent_annual = st_rent st * 12;
          cumulative_rent_cost = st_cumulative_rent_cost st + rent_annual;
          rent = st_rent st * (1 + rvb_annual_rent_increase data / 100);
          monthly_diff = monthly_pmt - rent_annual / 12;
          renter_portfolio =
            invest_months 12 monthly_invest_ret monthly_diff (st_renter_portfolio st);
          buy_net = py_round buyer_equity 2;
          rent_net = py_round renter_portfolio 2;
          breakeven_year =
            (if st_breakeven_year st = None \<and> buy_net \<ge> rent_net then Some yr
             else st_breakeven_year st)
      in \<lparr>st_home_value = home_value, st_rent = rent,
          st_renter_portfolio = renter_portfolio,
          st_cumulative_buy_cost = cumulative_buy_cost,
          st_cumulative_rent_cost = cumulative_rent_cost,
          st_breakeven_year = breakeven_year,
          st_yearly = st_yearly st @
            [\<lparr>yr_year = yr, yr_buy_net_worth = buy_net, yr_rent_net_worth = rent_net,
              yr_cumulative_buy_cost = py_round cumulative_buy_cost 2,
              yr_cumulative_rent_cost = py_round cumulative_rent_cost 2\<rparr>]\<rparr>)"

fun rvb_loop ::
  "rent_vs_buy_request \<Rightarrow> rat \<Rightarrow> rat \<Rightarrow> schedule_row list \<Rightarrow> rvb_state \<Rightarrow> int list
    \<Rightarrow> rvb_state" where
  "rvb_loop data loan monthly_pmt amort st [] = st"
| "rvb_loop data loan monthly_pmt amort st (yr # yrs) =
     rvb_loop data loan monthly_pmt amort (rvb_year data loan monthly_pmt amort yr st) yrs"

text \<open>
  \<open>api_rent_vs_buy\<close>, after its inputs are read. \<open>yearly[-1]\<close> raises on the empty list,
  which is what the loop leaves when \<open>years\<close> is below 1.
\<close>

definition api_rent_vs_buy ::
  "rent_vs_buy_request \<Rightarrow> py_error + rent_vs_buy_data response" where
  "api_rent_vs_buy data =
     (let home_price = rvb_home_price data;
          years = min (rvb_years data) 30;
          down_payment = home_price * rvb_down_payment_pct data / 100;
          loan = home_price - down_payment;
          term_months = rvb_term_years data * 12
      in case monthly_payment loan (rvb_mortgage_rate data) term_months of
           Inl e \<Rightarrow> Inl e
         | Inr monthly_pmt \<Rightarrow>
             (case amortize loan (rvb_mortgage_rate data) term_months of
                Inl e \<Rightarrow> Inl e
              | Inr amort \<Rightarrow>
                  let st = rvb_loop data loan monthly_pmt amort
                        \<lparr>st_home_value = home_price, st_rent = rvb_monthly_rent data,
                         st_renter_portfolio = down_payment,
                         st_cumulative_buy_cost = down_payment,
                         st_cumulative_rent_cost = 0,
                         st_breakeven_year = None, st_yearly = []\<rparr>
                        [1..years];
                      yearly = st_yearly st
                  in if yearly = [] then Inl IndexError
                     else
                       let lst = last yearly;
                           diff = yr_buy_net_worth lst - yr_rent_net_worth lst;
                           rec = (if diff > 5000 then ''BUY''
                                  else if diff < - 5000 then ''RENT'' else ''NEUTRAL'')
                       in Inr (Ok \<lparr>breakeven_year_out = st_breakeven_year st,
                                   buy_net_worth_at_horizon = yr_buy_net_worth lst,
                                   rent_net_worth_at_horizon = yr_rent_net_worth lst,
                                   recommendation = rec,
                                   yearly_comparison = yearly\<rparr>)))"

section \<open>Credit-card payoff (calculators/debt.py)\<close>

text \<open>
  \<open>_monthly_payment\<close> of debt.py, a copy of the one of mortgage.py, exact in the same way.
\<close>

definition debt_monthly_payment :: "rat \<Rightarrow> rat \<Rightarrow> int \<Rightarrow> py_error + rat" where
  "debt_monthly_payment principal' annual_rate_pct term_months =
     (if annual_rate_pct = 0 then
        (if term_months \<noteq> 0 then py_div principal' (of_int term_months) else Inr 0)
      else
        let r = annual_rate_pct / 100 / 12
        in case py_pow (1 + r) term_months of
             Inl e \<Rightarrow> Inl e
           | Inr p \<Rightarrow> py_div (principal' * (r * p)) (p - 1))"











section \<open>Predicates of the statements\<close>

text \<open>
  A bracket table as the data model describes it: the upper bounds are strictly
  increasing, starting above \<open>lo\<close>, and the last one is unbounded. With \<open>lo = 0\<close> the bands
  partition the incomes from 0 on.
\<close>

fun bracket_table :: "rat \<Rightarrow> bracket list \<Rightarrow> bool" where
  "bracket_table lo [] = False"
| "bracket_table lo [(upper, rate)] = (upper = PosInf)"
| "bracket_table lo ((upper, rate) # b # brackets) =
     (case upper of PosInf \<Rightarrow> False | Finite u \<Rightarrow> lo < u \<and> bracket_table u (b # brackets))"

definition rates_nonneg :: "bracket list \<Rightarrow> bool" where
  "rates_nonneg brackets = list_all (\<lambda>b. 0 \<le> snd b) brackets"

text \<open>
  What the specification asks of a breakeven year, on the rows of the yearly comparison:
  null when the buyer is behind in every year; otherwise the year of a row where the
  buyer is level or ahead, the buyer being behind in every row of an earlier year.
\<close>

definition first_crossing :: "int option \<Rightarrow> yearly_row list \<Rightarrow> bool" where
  "first_crossing breakeven yearly =
     (case breakeven of
        None \<Rightarrow> (\<forall>row \<in> set yearly. yr_buy_net_worth row < yr_rent_net_worth row)
      | Some y \<Rightarrow>
          (\<exists>row \<in> set yearly. yr_year row = y \<and> yr_rent_net_worth row \<le> yr_buy_net_worth row)
        \<and> (\<forall>row \<in> set yearly. yr_year row < y
              \<longrightarrow> yr_buy_net_worth row < yr_rent_net_worth row))"

text \<open>
  The bands of a bracket table, as the specification describes them: a bracket taxes the
  income between the previous upper bound (0 for the first bracket) and its own upper
  bound. A band is traversed by an income that lies above its lower end, and its tax is
  the part of the income within the band times the bracket's rate.
\<close>

definition band_list :: "rat \<Rightarrow> bracket list \<Rightarrow> (rat \<times> bracket) list" where
  "band_list lo brackets =
     zip (lo # map (\<lambda>b. case fst b of Finite u \<Rightarrow> u | PosInf \<Rightarrow> 0) (butlast brackets))
       brackets"

definition traversed_bands :: "rat \<Rightarrow> bracket list \<Rightarrow> (rat \<times> bracket) list" where
  "traversed_bands taxable_income brackets =
     filter (\<lambda>band. fst band < taxable_income) (band_list 0 brackets)"

definition band_tax_of :: "rat \<Rightarrow> rat \<times> bracket \<Rightarrow> rat" where
  "band_tax_of taxable_income band =
     (min_bound taxable_income (fst (snd band)) - fst band) * snd (snd band)"

text \<open>
  What a result \<open>(totalTax, breakdown)\<close> of the progressive tax routine has to do with the
  bands: the breakdown has one entry for each traversed band, in order, with the band's
  two ends and an amount within half a cent of the band's tax; the total is within half
  a cent of the sum of the band taxes; and the amounts sum to the total within half a
  cent for each entry and half a cent more.
\<close>

definition breakdown_of_bands ::
  "rat \<Rightarrow> bracket list \<Rightarrow> rat \<times> bracket_application list \<Rightarrow> bool" where
  "breakdown_of_bands taxable_income brackets result =
     (let bands = traversed_bands taxable_income brackets;
          total = fst result;
          applied = snd result
      in list_all2
           (\<lambda>entry band.
              bracket_from entry = fst band \<and> bracket_to entry = fst (snd band)
              \<and> \<bar>bracket_tax entry - band_tax_of taxable_income band\<bar> \<le> 1 / 200)
           applied bands
       \<and> \<bar>total - sum_list (map (band_tax_of taxable_income) bands)\<bar> \<le> 1 / 200
       \<and> \<bar>sum_list (map bracket_tax applied) - total\<bar> \<le> (of_nat (length bands) + 1) / 200)"

section \<open>Rounding\<close>

lemma round_half_even_error: "\<bar>of_int (round_half_even x) - x\<bar> \<le> 1 / 2"
proof -
  have "of_int \<lfloor>x\<rfloor> \<le> x" "x < of_int \<lfloor>x\<rfloor> + 1" by linarith+
  then show ?thesis
    by (auto simp: round_half_even_def Let_def abs_le_iff)
qed

lemma round_half_even_mono:
  assumes "x \<le> y" shows "round_half_even x \<le> round_half_even y"
proof (cases "\<lfloor>x\<rfloor> = \<lfloor>y\<rfloor>")
  case True
  with assms show ?thesis
    by (auto simp: round_half_even_def Let_def)
next
  case False
  with assms have "\<lfloor>x\<rfloor> < \<lfloor>y\<rfloor>"
    by (simp add: floor_mono order.not_eq_order_implies_strict)
  moreover have "round_half_even x \<le> \<lfloor>x\<rfloor> + 1"
    by (simp add: round_half_even_def Let_def)
  moreover have "\<lfloor>y\<rfloor> \<le> round_half_even y"
    by (simp add: round_half_even_def Let_def)
  ultimately show ?thesis by linarith
qed

lemma round_half_even_of_int: "round_half_even (of_int k) = k"
  by (simp add: round_half_even_def)

lemma py_round_mono: "x \<le> y \<Longrightarrow> py_round x nd \<le> py_round y nd"
  unfolding py_round_def
  by (intro divide_right_mono round_half_even_mono mult_right_mono iffD2[OF of_int_le_iff])
    simp_all

lemma py_round_zero: "py_round 0 nd = 0"
  using round_half_even_of_int[of 0] by (simp add: py_round_def)

lemma py_round_nonneg: "0 \<le> x \<Longrightarrow> 0 \<le> py_round x nd"
  using py_round_mono[of 0 x nd] by (simp add: py_round_zero)

lemma py_round_error: "\<bar>py_round x nd - x\<bar> \<le> 1 / (2 * 10 ^ nd)"
proof -
  have p: "(0::rat) < 10 ^ nd" by simp
  have "\<bar>py_round x nd - x\<bar>
          = \<bar>of_int (round_half_even (x * 10 ^ nd)) - x * 10 ^ nd\<bar> / 10 ^ nd"
    using p by (simp add: py_round_def field_simps abs_divide flip: abs_mult)
  also have "\<dots> \<le> (1 / 2) / 10 ^ nd"
    by (intro divide_right_mono round_half_even_error) simp
  finally show ?thesis by simp
qed

lemma py_round_cent: "\<bar>py_round x 2 - x\<bar> \<le> 1 / 200"
  using py_round_error[of x 2] by simp

section \<open>The bracket breakdown and the total\<close>

text \<open>
  Each entry of the breakdown is one band's tax rounded to the cent, and the total is the
  sum of the unrounded band taxes, rounded once. The loop keeps the two within half a
  cent per entry.
\<close>

lemma apply_brackets_loop_sum:
  assumes "\<bar>sum_list (map bracket_tax applied) - tx\<bar> \<le> of_nat (length applied) / 200"
    and "apply_brackets_loop t prev tx applied bs = (tx', applied')"
  shows "\<bar>sum_list (map bracket_tax applied') - tx'\<bar> \<le> of_nat (length applied') / 200"
  using assms
proof (induction bs arbitrary: prev tx applied)
  case Nil
  then show ?case by simp
next
  case (Cons b bs)
  obtain u r where b: "b = (u, r)" by (cases b)
  show ?case
  proof (cases "t \<le> prev")
    case True
    with Cons.prems b show ?thesis by simp
  next
    case False
    define bt where "bt = (min_bound t u - prev) * r"
    define ap where "ap = applied @ [\<lparr>bracket_from = prev, bracket_to = u,
                bracket_rate = py_round (r * 100) 1, bracket_tax = py_round bt 2\<rparr>]"
    have inv: "\<bar>sum_list (map bracket_tax ap) - (tx + bt)\<bar> \<le> of_nat (length ap) / 200"
    proof -
      have "sum_list (map bracket_tax ap) = sum_list (map bracket_tax applied) + py_round bt 2"
        by (simp add: ap_def)
      moreover have "(of_nat (length ap) :: rat) = of_nat (length applied) + 1"
        by (simp add: ap_def)
      ultimately show ?thesis using Cons.prems(1) py_round_cent[of bt] by linarith
    qed
    show ?thesis
    proof (cases u)
      case PosInf
      with Cons.prems(2) b False have "tx' = tx + bt" "applied' = ap"
        by (simp_all add: bt_def ap_def Let_def)
      with inv show ?thesis by simp
    next
      case (Finite v)
      show ?thesis
      proof (cases "t \<le> v")
        case True
        with Cons.prems(2) b False Finite have "tx' = tx + bt" "applied' = ap"
          by (simp_all add: bt_def ap_def Let_def)
        with inv show ?thesis by simp
      next
        case over: False
        with Cons.prems(2) b False Finite
        have "apply_brackets_loop t v (tx + bt) ap bs = (tx', applied')"
          by (simp add: bt_def ap_def Let_def)
        from Cons.IH[OF inv this] show ?thesis .
      qed
    qed
  qed
qed

lemma apply_brackets_loop_total:
  assumes "apply_brackets_loop t 0 0 [] bs = (tx, ap)"
  shows "\<bar>sum_list (map bracket_tax ap) - py_round tx 2\<bar> \<le> (of_nat (length ap) + 1) / 200"
proof -
  have "\<bar>sum_list (map bracket_tax ap) - tx\<bar> \<le> of_nat (length ap) / 200"
    by (rule apply_brackets_loop_sum[OF _ assms]) simp
  with py_round_cent[of tx] show ?thesis
    by (simp only: abs_le_iff add_divide_distrib) linarith
qed

lemma band_list_Nil: "band_list lo [] = []"
  by (simp add: band_list_def)

lemma band_list_single: "band_list lo [b] = [(lo, b)]"
  by (simp add: band_list_def)

lemma band_list_Cons:
  "band_list lo ((Finite u, r) # b # bs) = (lo, (Finite u, r)) # band_list u (b # bs)"
  by (simp add: band_list_def)

text \<open>In a bracket table no band starts below the table's lower end.\<close>

lemma band_list_lower:
  "bracket_table lo bs \<Longrightarrow> band \<in> set (band_list lo bs) \<Longrightarrow> lo \<le> fst band"
proof (induction lo bs rule: bracket_table.induct)
  case (1 lo)
  then show ?case by simp
next
  case (2 lo u r)
  then show ?case by (simp add: band_list_single)
next
  case (3 lo u r b bs)
  then obtain v where u: "u = Finite v" and lo: "lo < v" and tb: "bracket_table v (b # bs)"
    by (auto split: bound.splits)
  from "3.prems"(2) have "band = (lo, (u, r)) \<or> band \<in> set (band_list v (b # bs))"
    by (simp add: u band_list_Cons)
  then show ?case
  proof
    assume "band = (lo, (u, r))"
    then show ?thesis by simp
  next
    assume "band \<in> set (band_list v (b # bs))"
    from "3.IH"[OF u tb this] lo show ?thesis by simp
  qed
qed

lemma band_list_none:
  assumes "bracket_table lo bs" "t \<le> lo"
  shows "filter (\<lambda>band. fst band < t) (band_list lo bs) = []"
  using band_list_lower[OF assms(1)] assms(2) by (fastforce simp: filter_empty_conv)

text \<open>
  On a bracket table the loop adds the taxes of the traversed bands and appends one
  entry for each.
\<close>

lemma apply_brackets_loop_bands:
  assumes "bracket_table lo bs"
  shows "apply_brackets_loop t lo tx ap bs =
     (tx + sum_list (map (band_tax_of t) (filter (\<lambda>band. fst band < t) (band_list lo bs))),
      ap @ map (\<lambda>band. \<lparr>bracket_from = fst band, bracket_to = fst (snd band),
                          bracket_rate = py_round (snd (snd band) * 100) 1,
                          bracket_tax = py_round (band_tax_of t band) 2\<rparr>)
             (filter (\<lambda>band. fst band < t) (band_list lo bs)))"
  using assms
proof (induction lo bs arbitrary: tx ap rule: bracket_table.induct)
  case (1 lo)
  then show ?case by simp
next
  case (2 lo u r)
  then have u: "u = PosInf" by simp
  show ?case
    by (simp add: u band_list_single band_tax_of_def Let_def)
next
  case (3 lo u r b bs)
  then obtain v where u: "u = Finite v" and lo: "lo < v" and tb: "bracket_table v (b # bs)"
    by (auto split: bound.splits)
  show ?case
  proof (cases "t \<le> lo")
    case True
    with band_list_none[OF "3.prems" True] show ?thesis by simp
  next
    case False
    show ?thesis
    proof (cases "t \<le> v")
      case True
      with band_list_none[OF tb True] False show ?thesis
        by (simp add: u band_list_Cons band_tax_of_def Let_def)
    next
      case over: False
      with False "3.IH"[OF u tb] show ?thesis
        by (simp add: u band_list_Cons band_tax_of_def Let_def)
    qed
  qed
qed


lemma apply_brackets_bands:
  assumes "bracket_table 0 bs"
  shows "apply_brackets t bs =
     (py_round (sum_list (map (band_tax_of t) (traversed_bands t bs))) 2,
      map (\<lambda>band. \<lparr>bracket_from = fst band, bracket_to = fst (snd band),
                     bracket_rate = py_round (snd (snd band) * 100) 1,
                     bracket_tax = py_round (band_tax_of t band) 2\<rparr>)
        (traversed_bands t bs))"
  by (simp add: apply_brackets_def apply_brackets_loop_bands[OF assms] traversed_bands_def)

lemma india_apply_brackets_eq: "india_apply_brackets t bs = apply_brackets t bs"
  by (simp add: india_apply_brackets_def apply_brackets_def)

lemma breakdown_of_bands_apply:
  assumes "bracket_table 0 bs"
  shows "breakdown_of_bands t bs (apply_brackets t bs)"
proof -
  define T where "T = traversed_bands t bs"
  define row where "row = (\<lambda>band :: rat \<times> bracket.
     \<lparr>bracket_from = fst band, bracket_to = fst (snd band),
      bracket_rate = py_round (snd (snd band) * 100) 1,
      bracket_tax = py_round (band_tax_of t band) 2\<rparr>)"
  have res: "apply_brackets t bs = (py_round (sum_list (map (band_tax_of t) T)) 2, map row T)"
    unfolding T_def row_def by (rule apply_brackets_bands[OF assms])
  have entries: "list_all2
           (\<lambda>entry band.
              bracket_from entry = fst band \<and> bracket_to entry = fst (snd band)
              \<and> \<bar>bracket_tax entry - band_tax_of t band\<bar> \<le> 1 / 200)
           (map row T) T"
    unfolding list_all2_map1 list_all2_same row_def using py_round_cent by auto
  have total: "\<bar>py_round (sum_list (map (band_tax_of t) T)) 2
                 - sum_list (map (band_tax_of t) T)\<bar> \<le> 1 / 200"
    by (rule py_round_cent)
  obtain tx ap where l: "apply_brackets_loop t 0 0 [] bs = (tx, ap)"
    by (cases "apply_brackets_loop t 0 0 [] bs")
  with res have "py_round tx 2 = py_round (sum_list (map (band_tax_of t) T)) 2" "ap = map row T"
    by (simp_all add: apply_brackets_def)
  with apply_brackets_loop_total[OF l]
  have sum: "\<bar>sum_list (map bracket_tax (map row T))
               - py_round (sum_list (map (band_tax_of t) T)) 2\<bar> \<le> (of_nat (length T) + 1) / 200"
    by simp
  show ?thesis
    unfolding breakdown_of_bands_def Let_def res T_def[symmetric]
    using entries total sum by simp
qed

text \<open>
  C1, as the code has it: for a bracket table, the breakdown has one entry per traversed
  band, each amount within half a cent of its band's tax; the total is within half a cent
  of the sum of the band taxes; so the amounts sum to the total only up to rounding,
  within half a cent per entry and half a cent more. Both copies of the routine do so.
\<close>

theorem breakdown_follows_bands:
  assumes "bracket_table 0 brackets"
  shows "breakdown_of_bands taxable_income brackets (apply_brackets taxable_income brackets)
       \<and> breakdown_of_bands taxable_income brackets
           (india_apply_brackets taxable_income brackets)"
  using breakdown_of_bands_apply[OF assms] by (simp add: india_apply_brackets_eq)

theorem breakdown_follows_bands_witness:
  "bracket_table 0 UK_TAX_BRACKETS
   \<and> traversed_bands 60000 UK_TAX_BRACKETS =
       [(0, (Finite 50270, 20 / 100)), (50270, (Finite 125140, 40 / 100))]
   \<and> breakdown_of_bands 60000 UK_TAX_BRACKETS (apply_brackets 60000 UK_TAX_BRACKETS)
   \<and> breakdown_of_bands 60000 UK_TAX_BRACKETS (india_apply_brackets 60000 UK_TAX_BRACKETS)"
proof -
  have t: "bracket_table 0 UK_TAX_BRACKETS" by (simp add: UK_TAX_BRACKETS_def)
  have b: "traversed_bands 60000 UK_TAX_BRACKETS =
       [(0, (Finite 50270, 20 / 100)), (50270, (Finite 125140, 40 / 100))]"
    by (simp add: traversed_bands_def band_list_def UK_TAX_BRACKETS_def)
  from breakdown_follows_bands[OF t, of 60000] t b show ?thesis by simp
qed

text \<open>
  C1 as stated fails: with the table \<open>[(100.04, 10%), (inf, 10%)]\<close> and a taxable income
  of 200.08, each band's tax is 10.004 and is reported as 10.00, while the total 20.008
  is reported as 20.01.
\<close>

theorem breakdown_sum_counterexample:
  "bracket_table 0 [(Finite (2501 / 25), 1 / 10), (PosInf, 1 / 10)]
   \<and> (0 :: rat) \<le> 5002 / 25
   \<and> sum_list (map bracket_tax
        (snd (apply_brackets (5002 / 25) [(Finite (2501 / 25), 1 / 10), (PosInf, 1 / 10)])))
      = 20
   \<and> fst (apply_brackets (5002 / 25) [(Finite (2501 / 25), 1 / 10), (PosInf, 1 / 10)])
      = 2001 / 100
   \<and> sum_list (map bracket_tax
        (snd (india_apply_brackets (5002 / 25)
           [(Finite (2501 / 25), 1 / 10), (PosInf, 1 / 10)])))
      \<noteq> fst (india_apply_brackets (5002 / 25)
           [(Finite (2501 / 25), 1 / 10), (PosInf, 1 / 10)])"
  by code_simp

section \<open>The total tax grows with the income\<close>

lemma apply_brackets_loop_ge:
  "bracket_table prev bs \<Longrightarrow> rates_nonneg bs
    \<Longrightarrow> tx \<le> fst (apply_brackets_loop t prev tx ap bs)"
proof (induction prev bs arbitrary: tx ap rule: bracket_table.induct)
  case (1 lo)
  then show ?case by simp
next
  case (2 lo u r)
  then show ?case by (simp add: rates_nonneg_def Let_def)
next
  case (3 lo u r b bs)
  then obtain v where u: "u = Finite v" and lo: "lo < v" and tb: "bracket_table v (b # bs)"
    by (auto split: bound.splits)
  from "3.prems" have r: "0 \<le> r" and rn: "rates_nonneg (b # bs)"
    by (simp_all add: rates_nonneg_def)
  show ?case
  proof (cases "t \<le> lo")
    case True
    then show ?thesis by simp
  next
    case False
    define bt where "bt = (min t v - lo) * r"
    from False lo r have bt: "0 \<le> bt" by (simp add: bt_def)
    show ?thesis
    proof (cases "t \<le> v")
      case True
      with False u bt show ?thesis by (simp add: Let_def bt_def)
    next
      case over: False
      have "tx + bt \<le> fst (apply_brackets_loop t v (tx + bt)
              (ap @ [\<lparr>bracket_from = lo, bracket_to = u,
                       bracket_rate = py_round (r * 100) 1,
                       bracket_tax = py_round bt 2\<rparr>]) (b # bs))"
        using "3.IH"[OF u tb rn] .
      with False over u bt show ?thesis by (simp add: Let_def bt_def)
    qed
  qed
qed

lemma apply_brackets_loop_mono:
  "bracket_table prev bs \<Longrightarrow> rates_nonneg bs \<Longrightarrow> x \<le> y \<Longrightarrow>
     fst (apply_brackets_loop x prev tx a1 bs) \<le> fst (apply_brackets_loop y prev tx a2 bs)"
proof (induction prev bs arbitrary: tx a1 a2 rule: bracket_table.induct)
  case (1 lo)
  then show ?case by simp
next
  case (2 lo u r)
  then have "0 \<le> r" "u = PosInf" by (simp_all add: rates_nonneg_def)
  with \<open>x \<le> y\<close> show ?case
    by (auto simp: Let_def mult_right_mono intro: mult_nonneg_nonneg)
next
  case (3 lo u r b bs)
  then obtain v where u: "u = Finite v" and lo: "lo < v" and tb: "bracket_table v (b # bs)"
    by (auto split: bound.splits)
  from "3.prems" have r: "0 \<le> r" and rn: "rates_nonneg (b # bs)"
    by (simp_all add: rates_nonneg_def)
  note ge = apply_brackets_loop_ge[OF tb rn]
  show ?case
  proof (cases "x \<le> lo")
    case True
    then have "fst (apply_brackets_loop x lo tx a1 ((u, r) # b # bs)) = tx" by simp
    also have "tx \<le> fst (apply_brackets_loop y lo tx a2 ((u, r) # b # bs))"
      by (rule apply_brackets_loop_ge[OF "3.prems"(1,2)])
    finally show ?thesis .
  next
    case False
    with \<open>x \<le> y\<close> have yl: "\<not> y \<le> lo" by simp
    show ?thesis
    proof (cases "x \<le> v")
      case xv: True
      then have L: "fst (apply_brackets_loop x lo tx a1 ((u, r) # b # bs)) = tx + (x - lo) * r"
        using False u by (simp add: Let_def)
      show ?thesis
      proof (cases "y \<le> v")
        case True
        then have "fst (apply_brackets_loop y lo tx a2 ((u, r) # b # bs)) = tx + (y - lo) * r"
          using yl u by (simp add: Let_def)
        with L r \<open>x \<le> y\<close> show ?thesis by (simp add: mult_right_mono)
      next
        case yv: False
        have "tx + (x - lo) * r \<le> tx + (v - lo) * r"
          using xv r by (simp add: mult_right_mono)
        also have "\<dots> \<le> fst (apply_brackets_loop y v (tx + (v - lo) * r)
             (a2 @ [\<lparr>bracket_from = lo, bracket_to = u,
                      bracket_rate = py_round (r * 100) 1,
                      bracket_tax = py_round ((v - lo) * r) 2\<rparr>]) (b # bs))"
          by (rule ge)
        finally show ?thesis using L yl yv u by (simp add: Let_def)
      qed
    next
      case xv: False
      with \<open>x \<le> y\<close> have yv: "\<not> y \<le> v" by simp
      from xv yv False yl u "3.IH"[OF u tb rn \<open>x \<le> y\<close>] show ?thesis
        by (simp add: Let_def)
    qed
  qed
qed

text \<open>
  C2: for a bracket table with non-negative rates and incomes \<open>0 \<le> x \<le> y\<close>, the total tax
  of \<open>x\<close> is at most the total tax of \<open>y\<close>.
\<close>

theorem total_tax_monotone:
  "bracket_table 0 brackets \<Longrightarrow> rates_nonneg brackets \<Longrightarrow> 0 \<le> x \<Longrightarrow> x \<le> y \<Longrightarrow>
     fst (apply_brackets x brackets) \<le> fst (apply_brackets y brackets)"
  using apply_brackets_loop_mono[of 0 brackets x y 0 "[]" "[]"]
  by (simp add: apply_brackets_def split_beta py_round_mono)

theorem total_tax_monotone_witness:
  "bracket_table 0 UK_TAX_BRACKETS \<and> rates_nonneg UK_TAX_BRACKETS
   \<and> (0 :: rat) \<le> 50270 \<and> (50270 :: rat) \<le> 60000
   \<and> fst (apply_brackets 50270 UK_TAX_BRACKETS) \<le> fst (apply_brackets 60000 UK_TAX_BRACKETS)"
proof -
  have t: "bracket_table 0 UK_TAX_BRACKETS" by (simp add: UK_TAX_BRACKETS_def)
  have r: "rates_nonneg UK_TAX_BRACKETS" by (simp add: UK_TAX_BRACKETS_def rates_nonneg_def)
  show ?thesis
    using t r total_tax_monotone[OF t r, of 50270 60000] by simp
qed

section \<open>The monthly payment with a term of 0 or less\<close>

lemma debt_monthly_payment_eq: "debt_monthly_payment = monthly_payment"
  by (intro ext) (simp add: debt_monthly_payment_def monthly_payment_def)

text \<open>
  With a term of 0 and a rate other than 0 the power is 1, the denominator 0, and the
  division raises: the annuity branch has no guard like the one of the zero-rate branch.
\<close>

lemma monthly_payment_zero_term_raises:
  assumes "annual_rate_pct \<noteq> 0"
  shows "monthly_payment p annual_rate_pct 0 = Inl ZeroDivisionError"
  using assms by (simp add: monthly_payment_def py_pow_def py_div_def)

text \<open>
  C4, as the code has it: with a rate of 0, a term of 0 or less is not rejected. The
  function returns 0 for a term of 0 and \<open>principal / term_months\<close> for a negative term,
  in both copies (mortgage.py and debt.py).
\<close>

theorem monthly_payment_nonpositive_term:
  assumes "term_months \<le> 0"
  shows "(term_months = 0 \<longrightarrow>
            monthly_payment p 0 term_months = Inr 0
          \<and> debt_monthly_payment p 0 term_months = Inr 0)
       \<and> (term_months < 0 \<longrightarrow>
            monthly_payment p 0 term_months = Inr (p / of_int term_months)
          \<and> debt_monthly_payment p 0 term_months = Inr (p / of_int term_months))"
  by (simp add: debt_monthly_payment_eq monthly_payment_def py_div_def)

theorem monthly_payment_nonpositive_term_witness:
  "(- 4 :: int) \<le> 0
   \<and> monthly_payment 1000 0 (- 4) = Inr (- 250)
   \<and> debt_monthly_payment 1000 0 (- 4) = Inr (- 250)
   \<and> (0 :: int) \<le> 0
   \<and> monthly_payment 725 0 0 = Inr 0
   \<and> debt_monthly_payment 725 0 0 = Inr 0"
proof -
  have a: "(- 4 :: int) \<le> 0" and b: "(0 :: int) \<le> 0" by simp_all
  from monthly_payment_nonpositive_term[OF a, of 1000]
    monthly_payment_nonpositive_term[OF b, of 725]
  show ?thesis by simp
qed

text \<open>
  C4 as stated fails: with a rate of 0 and a term of 0 the call returns 0, and with a term
  of \<open>-5\<close> it returns \<open>-200\<close>.
\<close>

theorem monthly_payment_counterexample:
  "monthly_payment 1000 0 0 = Inr 0 \<and> debt_monthly_payment 1000 0 0 = Inr 0
   \<and> monthly_payment 1000 0 (- 5) = Inr (- 200)"
  by (simp add: monthly_payment_def debt_monthly_payment_def py_div_def)

section \<open>The rows of the amortization schedule\<close>

lemma amortize_loop_append:
  "amortize_loop r payment b sched ms = sched @ amortize_loop r payment b [] ms"
proof (induction ms arbitrary: b sched)
  case Nil
  show ?case by simp
next
  case (Cons m ms)
  show ?case
    by (simp add: Let_def Cons.IH[of _ "sched @ _"] Cons.IH[of _ "[_]"])
qed

lemma amortize_loop_step:
  "amortize_loop r payment b [] (m # ms) =
     \<lparr>row_month = m, row_payment = py_round payment 2,
      row_principal = py_round (payment - b * r) 2,
      row_interest = py_round (b * r) 2,
      row_balance = py_round (max (b - (payment - b * r)) 0) 2\<rparr>
     # amortize_loop r payment (max (b - (payment - b * r)) 0) [] ms"
  by (simp add: Let_def amortize_loop_append[of _ _ _ "[_]"])

lemma amortize_loop_months: "map row_month (amortize_loop r payment b [] ms) = ms"
proof (induction ms arbitrary: b)
  case Nil
  show ?case by simp
next
  case (Cons m ms)
  then show ?case by (simp add: amortize_loop_step del: amortize_loop.simps)
qed

lemma amortize_loop_nonempty: "ms \<noteq> [] \<Longrightarrow> amortize_loop r payment b [] ms \<noteq> []"
  using amortize_loop_months[of r payment b ms] by auto

lemma amortize_loop_nonneg:
  "row \<in> set (amortize_loop r payment b [] ms) \<Longrightarrow> 0 \<le> row_balance row"
proof (induction ms arbitrary: b)
  case Nil
  then show ?case by simp
next
  case (Cons m ms)
  then show ?case
    by (auto simp: amortize_loop_step py_round_nonneg simp del: amortize_loop.simps)
qed

text \<open>
  Whenever the monthly payment has a value, the schedule has one row for each of the
  months 1 to \<open>term_months\<close>, in that order, and no balance is negative. This rests on the
  loop and its clamp alone, not on the arithmetic of the payment.
\<close>

lemma amortize_rows:
  assumes "amortize p annual_rate_pct term_months = Inr sched"
  shows "map row_month sched = [1..term_months] \<and> (\<forall>row \<in> set sched. 0 \<le> row_balance row)"
  using assms
  by (auto simp: amortize_def Let_def amortize_loop_months amortize_loop_nonneg
      split: sum.splits)

section \<open>The annuity in exact arithmetic\<close>

text \<open>
  The lemmas of this section are about the annuity formula and the amortization loop
  computed exactly, as \<open>monthly_payment\<close> and \<open>amortize\<close> are defined here. They show what
  the formula is meant to deliver. They are not statements about the code at every
  input: in binary floating point the denominator of the formula cancels for tiny
  rates, so that the code raises or returns a payment that does not cover the principal
  (see the note at \<open>monthly_payment\<close>).
\<close>

lemma growth_minus_one_le:
  fixes r :: rat
  assumes "0 \<le> r"
  shows "(1 + r) ^ k - 1 \<le> of_nat k * r * (1 + r) ^ k"
proof (induction k)
  case 0
  show ?case by simp
next
  case (Suc k)
  have q1: "1 \<le> (1 + r) ^ Suc k" using assms by (intro one_le_power) simp
  have "(1 + r) ^ Suc k - 1 = (1 + r) * ((1 + r) ^ k - 1) + r"
    by (simp add: algebra_simps)
  also have "\<dots> \<le> (1 + r) * (of_nat k * r * (1 + r) ^ k) + r"
    using assms Suc.IH by (intro add_right_mono mult_left_mono) simp_all
  also have "\<dots> = of_nat k * r * (1 + r) ^ Suc k + r"
    by (simp add: algebra_simps)
  also have "\<dots> \<le> of_nat k * r * (1 + r) ^ Suc k + r * (1 + r) ^ Suc k"
    using assms q1 mult_left_mono[of 1 "(1 + r) ^ Suc k" r] by simp
  also have "\<dots> = of_nat (Suc k) * r * (1 + r) ^ Suc k"
    by (simp add: algebra_simps)
  finally show ?case .
qed

lemma growth_gt_one:
  fixes r :: rat
  assumes "0 < r" "0 < k"
  shows "1 < (1 + r) ^ k"
  using assms by (intro one_less_power) simp_all

text \<open>With a positive rate and at least one month, the exact annuity formula has a value.\<close>

lemma monthly_payment_in_r:
  assumes "annual_rate_pct \<noteq> 0" "r = annual_rate_pct / 100 / 12"
  shows "monthly_payment p annual_rate_pct term_months =
           (case py_pow (1 + r) term_months of
              Inl e \<Rightarrow> Inl e
            | Inr pw \<Rightarrow> py_div (p * (r * pw)) (pw - 1))"
  unfolding monthly_payment_def Let_def assms(2)[symmetric] using assms(1)
  by (simp only: if_False)

lemma monthly_payment_annuity:
  assumes "0 < annual_rate_pct" "1 \<le> term_months" "r = annual_rate_pct / 100 / 12"
  shows "monthly_payment p annual_rate_pct term_months =
           Inr (p * (r * (1 + r) ^ nat term_months) / ((1 + r) ^ nat term_months - 1))"
proof -
  have r: "0 < r" using assms by simp
  have n: "term_months = int (nat term_months)" "0 < nat term_months" using assms by simp_all
  have pw: "(1 + r) powi term_months = (1 + r) ^ nat term_months"
    by (subst n(1)) (simp only: power_int_of_nat)
  have "1 < (1 + r) ^ nat term_months" by (rule growth_gt_one[OF r n(2)])
  then have "(1 + r) ^ nat term_months - 1 \<noteq> 0" by simp
  moreover have "1 + r \<noteq> 0" using r by simp
  moreover have "annual_rate_pct \<noteq> 0" using assms(1) by simp
  ultimately show ?thesis
    by (simp add: monthly_payment_in_r[OF _ assms(3)] py_pow_def py_div_def pw)
qed

lemma monthly_payment_covers:
  assumes "0 \<le> p" "0 < annual_rate_pct" "1 \<le> term_months"
    and "monthly_payment p annual_rate_pct term_months = Inr payment"
  shows "p \<le> payment * of_int term_months"
proof -
  define r where "r = annual_rate_pct / 100 / 12"
  define k where "k = nat term_months"
  have r: "0 < r" using assms by (simp add: r_def)
  have k: "0 < k" "(of_int term_months :: rat) = of_nat k" using assms by (simp_all add: k_def)
  have g: "1 < (1 + r) ^ k" by (rule growth_gt_one[OF r k(1)])
  have pay: "payment = p * (r * (1 + r) ^ k) / ((1 + r) ^ k - 1)"
    using monthly_payment_annuity[OF assms(2,3) r_def, of p] assms(4) by (simp add: k_def)
  have "(1 + r) ^ k - 1 \<le> of_nat k * r * (1 + r) ^ k"
    using r by (intro growth_minus_one_le) simp
  then have "p * ((1 + r) ^ k - 1) \<le> p * (of_nat k * r * (1 + r) ^ k)"
    using assms(1) by (rule mult_left_mono)
  then have "p \<le> p * (of_nat k * r * (1 + r) ^ k) / ((1 + r) ^ k - 1)"
    using g by (simp add: pos_le_divide_eq)
  then show ?thesis by (simp add: pay k(2) mult_ac)
qed

text \<open>
  While the interest of a month is at most the payment, the balance does not grow: every
  later row's balance lies between 0 and the rounded balance before it.
\<close>

lemma amortize_loop_balances:
  assumes "0 \<le> r" "0 \<le> b" "b * r \<le> payment"
  shows "sorted_wrt (\<lambda>x y. y \<le> x) (map row_balance (amortize_loop r payment b [] ms))
       \<and> (\<forall>row \<in> set (amortize_loop r payment b [] ms).
            0 \<le> row_balance row \<and> row_balance row \<le> py_round b 2)"
  using assms(2,3)
proof (induction ms arbitrary: b)
  case Nil
  show ?case by simp
next
  case (Cons m ms)
  define b' where "b' = max (b - (payment - b * r)) 0"
  have b': "0 \<le> b'" "b' \<le> b" using Cons.prems by (simp_all add: b'_def)
  then have "b' * r \<le> b * r" using assms(1) by (intro mult_right_mono)
  with Cons.prems have "b' * r \<le> payment" by simp
  from Cons.IH[OF b'(1) this]
  have srt: "sorted_wrt (\<lambda>x y. y \<le> x) (map row_balance (amortize_loop r payment b' [] ms))"
    and rng: "\<And>row. row \<in> set (amortize_loop r payment b' [] ms)
                \<Longrightarrow> 0 \<le> row_balance row \<and> row_balance row \<le> py_round b' 2"
    by simp_all
  have rb: "0 \<le> py_round b' 2" "py_round b' 2 \<le> py_round b 2"
    using b' by (simp_all add: py_round_nonneg py_round_mono)
  show ?case
    unfolding amortize_loop_step b'_def[symmetric]
    using srt rng rb by (auto intro: order_trans)
qed

text \<open>
  With \<open>k\<close> months to go the balance is the present value of \<open>k\<close> payments; after the last
  month nothing is left.
\<close>

lemma amortize_loop_last:
  fixes r :: rat
  assumes "0 < r" "0 \<le> payment" "ms \<noteq> []"
    and "b * r * (1 + r) ^ length ms = payment * ((1 + r) ^ length ms - 1)"
  shows "row_balance (last (amortize_loop r payment b [] ms)) = 0"
  using assms(3,4)
proof (induction ms arbitrary: b)
  case Nil
  then show ?case by simp
next
  case (Cons m ms)
  define k where "k = length ms"
  define b' where "b' = max (b - (payment - b * r)) 0"
  have q: "0 < (1 + r) ^ k" using assms(1) by simp
  have q1: "1 \<le> (1 + r) ^ k" using assms(1) by (intro one_le_power) simp
  have "(b * (1 + r) - payment) * r * (1 + r) ^ k
          = b * r * (1 + r) ^ Suc k - payment * r * (1 + r) ^ k"
    by (simp add: algebra_simps)
  also have "\<dots> = payment * ((1 + r) ^ Suc k - 1) - payment * r * (1 + r) ^ k"
    using Cons.prems(2) by (simp add: k_def)
  also have "\<dots> = payment * ((1 + r) ^ k - 1)"
    by (simp add: algebra_simps)
  finally have eq: "(b * (1 + r) - payment) * r * (1 + r) ^ k = payment * ((1 + r) ^ k - 1)" .
  have "0 \<le> payment * ((1 + r) ^ k - 1)" using assms(2) q1 by simp
  with eq have "0 \<le> (b * (1 + r) - payment) * (r * (1 + r) ^ k)" by (simp add: mult.assoc)
  moreover have "0 < r * (1 + r) ^ k" using assms(1) q by simp
  ultimately have nn: "0 \<le> b * (1 + r) - payment" by (simp add: zero_le_mult_iff)
  have b': "b' = b * (1 + r) - payment"
    using nn by (simp add: b'_def algebra_simps)
  show ?case
  proof (cases "ms = []")
    case True
    with eq have "(b * (1 + r) - payment) * r = 0" by (simp add: k_def)
    with assms(1) have "b' = 0" by (simp add: b')
    with True show ?thesis
      unfolding amortize_loop_step b'_def[symmetric] by (simp add: py_round_zero)
  next
    case False
    from eq have "b' * r * (1 + r) ^ length ms = payment * ((1 + r) ^ length ms - 1)"
      by (simp add: b' k_def)
    from Cons.IH[OF False this] amortize_loop_nonempty[OF False, of r payment b']
    show ?thesis
      unfolding amortize_loop_step b'_def[symmetric] by simp
  qed
qed


lemma monthly_payment_covers_interest:
  assumes "0 \<le> p" "0 \<le> annual_rate_pct" "1 \<le> term_months"
    and "r = annual_rate_pct / 100 / 12"
  shows "\<exists>payment. monthly_payment p annual_rate_pct term_months = Inr payment
           \<and> p * r \<le> payment \<and> 0 \<le> payment"
proof (cases "annual_rate_pct = 0")
  case True
  with assms show ?thesis
    by (simp add: monthly_payment_def py_div_def)
next
  case False
  with assms have pos: "0 < annual_rate_pct" by simp
  then have r: "0 < r" using assms(4) by simp
  define g where "g = (1 + r) ^ nat term_months"
  have g: "1 < g" unfolding g_def using r assms(3) by (intro growth_gt_one) simp_all
  have pay: "monthly_payment p annual_rate_pct term_months = Inr (p * (r * g) / (g - 1))"
    unfolding g_def by (rule monthly_payment_annuity[OF pos assms(3,4)])
  have "p * r * (g - 1) \<le> p * r * g"
    using assms(1) r by (intro mult_left_mono) simp_all
  then have "p * r \<le> p * (r * g) / (g - 1)"
    using g by (simp add: pos_le_divide_eq mult.assoc)
  moreover have "0 \<le> p * r" using assms(1) r by simp
  ultimately show ?thesis using pay by auto
qed

text \<open>
  In exact arithmetic, with a positive rate and at least one month, the payments cover
  the principal and the last row of the schedule has a balance of 0.
\<close>

lemma exact_annuity_paid_off:
  assumes "0 \<le> p" "0 < annual_rate_pct" "1 \<le> term_months"
  shows "\<exists>payment sched.
           monthly_payment p annual_rate_pct term_months = Inr payment
         \<and> p \<le> payment * of_int term_months
         \<and> amortize p annual_rate_pct term_months = Inr sched
         \<and> sched \<noteq> []
         \<and> row_month (last sched) = term_months
         \<and> row_balance (last sched) = 0"
proof -
  define r where "r = annual_rate_pct / 100 / 12"
  define k where "k = nat term_months"
  define g where "g = (1 + r) ^ k"
  define payment where "payment = p * (r * g) / (g - 1)"
  define sched where "sched = amortize_loop r payment p [] [1..term_months]"
  have r: "0 < r" using assms(2) by (simp add: r_def)
  have k: "0 < k" using assms(3) by (simp add: k_def)
  have g: "1 < g" unfolding g_def by (rule growth_gt_one[OF r k])
  have pay: "monthly_payment p annual_rate_pct term_months = Inr payment"
    unfolding payment_def g_def k_def by (rule monthly_payment_annuity[OF assms(2,3) r_def])
  have am: "amortize p annual_rate_pct term_months = Inr sched"
    by (simp add: amortize_def Let_def pay sched_def r_def)
  have ne: "[1..term_months] \<noteq> []" using assms(3) by simp
  have len: "length [1..term_months] = k" by (simp add: k_def)
  have nn: "0 \<le> payment" using assms(1) r g by (simp add: payment_def)
  have "p * r * g = payment * (g - 1)" using g by (simp add: payment_def)
  then have "p * r * (1 + r) ^ length [1..term_months]
               = payment * ((1 + r) ^ length [1..term_months] - 1)"
    by (simp only: len g_def)
  from amortize_loop_last[OF r nn ne this]
  have bal: "row_balance (last sched) = 0" by (simp add: sched_def)
  have sne: "sched \<noteq> []" unfolding sched_def by (rule amortize_loop_nonempty[OF ne])
  have "map row_month sched = [1..term_months]"
    unfolding sched_def by (rule amortize_loop_months)
  then have "row_month (last sched) = last [1..term_months]"
    using sne by (metis last_map)
  also have "\<dots> = term_months"
    using assms(3) by (simp add: upto_rec2)
  finally have mon: "row_month (last sched) = term_months" .
  from monthly_payment_covers[OF assms pay] pay am sne mon bal show ?thesis by blast
qed

text \<open>
  In exact arithmetic, with a rate of 0 or more and at least one month, the schedule has
  one row for each of the months 1 to \<open>term_months\<close>, in that order; the balances never
  grow from a row to a later one and are never negative.
\<close>

lemma exact_schedule_balances:
  assumes "0 \<le> p" "0 \<le> annual_rate_pct" "1 \<le> term_months"
  shows "\<exists>sched.
           amortize p annual_rate_pct term_months = Inr sched
         \<and> map row_month sched = [1..term_months]
         \<and> sorted_wrt (\<lambda>x y. y \<le> x) (map row_balance sched)
         \<and> (\<forall>row \<in> set sched. 0 \<le> row_balance row)"
proof -
  define r where "r = annual_rate_pct / 100 / 12"
  have r: "0 \<le> r" using assms(2) by (simp add: r_def)
  from monthly_payment_covers_interest[OF assms r_def]
  obtain payment where pay: "monthly_payment p annual_rate_pct term_months = Inr payment"
    and int: "p * r \<le> payment" by blast
  define sched where "sched = amortize_loop r payment p [] [1..term_months]"
  have am: "amortize p annual_rate_pct term_months = Inr sched"
    by (simp add: amortize_def Let_def pay sched_def r_def)
  have "map row_month sched = [1..term_months]"
    unfolding sched_def by (rule amortize_loop_months)
  moreover from amortize_loop_balances[OF r assms(1) int, of "[1..term_months]"]
  have "sorted_wrt (\<lambda>x y. y \<le> x) (map row_balance sched)"
    and "\<forall>row \<in> set sched. 0 \<le> row_balance row"
    by (simp_all add: sched_def)
  ultimately show ?thesis using am by blast
qed

section \<open>The marginal rate of the take-home calculators\<close>

lemma marg_rate_loop_first:
  assumes "i < length bs" "le_bound t (fst (bs ! i))"
    and "\<forall>j<i. \<not> le_bound t (fst (bs ! j))"
  shows "marg_rate_loop t bs = snd (bs ! i) * 100"
  using assms
proof (induction bs arbitrary: i)
  case Nil
  then show ?case by simp
next
  case (Cons b bs)
  obtain u r where b: "b = (u, r)" by (cases b)
  show ?case
  proof (cases i)
    case 0
    with Cons.prems b show ?thesis by simp
  next
    case (Suc k)
    with Cons.prems(3) b have nu: "\<not> le_bound t u" by fastforce
    have "\<forall>j<k. \<not> le_bound t (fst (bs ! j))"
      using Cons.prems(3) Suc by fastforce
    with Cons.IH[of k] Cons.prems(1,2) Suc have "marg_rate_loop t bs = snd (bs ! k) * 100"
      by simp
    with nu b Suc show ?thesis by simp
  qed
qed

text \<open>In a bracket table an income below one bound is below every later bound.\<close>

lemma bracket_table_le_bound:
  assumes "bracket_table lo bs" "j \<le> k" "k < length bs" "le_bound t (fst (bs ! j))"
  shows "le_bound t (fst (bs ! k))"
  using assms
proof (induction lo bs arbitrary: j k rule: bracket_table.induct)
  case (1 lo)
  then show ?case by simp
next
  case (2 lo u r)
  then show ?case by simp
next
  case (3 lo u r b bs)
  then obtain v where u: "u = Finite v" and tb: "bracket_table v (b # bs)"
    by (auto split: bound.splits)
  show ?case
  proof (cases j)
    case (Suc j')
    with "3.prems" obtain k' where k: "k = Suc k'" by (cases k) simp_all
    from "3.IH"[OF u tb, of j' k'] "3.prems" Suc k show ?thesis by simp
  next
    case 0
    show ?thesis
    proof (cases k)
      case k0: 0
      with 0 "3.prems" show ?thesis by simp
    next
      case (Suc k')
      have tv: "t \<le> v" using "3.prems"(4) 0 u by simp
      have first: "le_bound t (fst ((b # bs) ! 0))"
      proof (cases bs)
        case Nil
        with tb show ?thesis by (cases b) simp
      next
        case (Cons c cs)
        with tb obtain w where "fst b = Finite w" "v < w"
          by (cases b) (auto split: bound.splits)
        with tv show ?thesis by simp
      qed
      from "3.IH"[OF u tb, of 0 k'] first "3.prems"(3) Suc show ?thesis by simp
    qed
  qed
qed

lemma marg_rate_loop_band:
  assumes "bracket_table lo bs" "i < length bs" "le_bound t (fst (bs ! i))"
    and "i = 0 \<or> \<not> le_bound t (fst (bs ! (i - 1)))"
  shows "marg_rate_loop t bs = snd (bs ! i) * 100"
proof (rule marg_rate_loop_first[OF assms(2,3)], intro allI impI)
  fix j assume j: "j < i"
  show "\<not> le_bound t (fst (bs ! j))"
  proof
    assume "le_bound t (fst (bs ! j))"
    with bracket_table_le_bound[OF assms(1), of j "i - 1" t] j assms(2)
    have "le_bound t (fst (bs ! (i - 1)))" by simp
    with assms(4) j show False by simp
  qed
qed

lemma us_tables_wellformed:
  assumes "US_TAX_BRACKETS f = Some table"
  shows "bracket_table 0 table"
proof -
  from assms have "f = ''single'' \<or> f = ''mfj'' \<or> f = ''hoh''"
    by (simp add: US_TAX_BRACKETS_def split: if_splits)
  with assms show ?thesis
    by (auto simp: US_TAX_BRACKETS_def)
qed

lemma us_filing_table: "\<exists>table. US_TAX_BRACKETS (us_filing filing) = Some table"
  by (cases "US_TAX_BRACKETS filing") (simp_all add: us_filing_def US_TAX_BRACKETS_def)

lemma us_other_rate: "US_STATE_TAX ''other'' = Some (5 / 100)"
  by (simp add: US_STATE_TAX_def)

lemma us_take_home_marginal:
  assumes "US_TAX_BRACKETS (us_filing filing) = Some table"
  shows "\<exists>res. us_take_home gross filing state = Inr res
           \<and> marginal_rate res = py_round (marg_rate_loop (us_taxable gross filing) table) 1"
  by (simp add: us_take_home_def assms us_other_rate Let_def split_beta)

lemma uk_take_home_marginal:
  "marginal_rate (uk_take_home gross) = py_round (marg_rate_loop (uk_taxable gross) UK_TAX_BRACKETS) 1"
  by (simp add: uk_take_home_def Let_def split_beta)

text \<open>
  C7, as the code has it: the reported marginal rate is the rate of the bracket whose
  band holds the taxable income, a band being open at the previous upper bound and
  closed at its own: bracket \<open>i\<close> holds the incomes above the bound of bracket \<open>i - 1\<close>
  up to and including its own bound (the first bracket holds everything up to its bound).
\<close>

theorem marginal_rate_of_band:
  "(US_TAX_BRACKETS (us_filing filing) = Some table \<and> i < length table
      \<and> le_bound (us_taxable gross filing) (fst (table ! i))
      \<and> (i = 0 \<or> \<not> le_bound (us_taxable gross filing) (fst (table ! (i - 1))))
    \<longrightarrow> (\<exists>res. us_take_home gross filing state = Inr res
           \<and> marginal_rate res = py_round (snd (table ! i) * 100) 1))
   \<and> (k < length UK_TAX_BRACKETS
      \<and> le_bound (uk_taxable gross) (fst (UK_TAX_BRACKETS ! k))
      \<and> (k = 0 \<or> \<not> le_bound (uk_taxable gross) (fst (UK_TAX_BRACKETS ! (k - 1))))
    \<longrightarrow> marginal_rate (uk_take_home gross) = py_round (snd (UK_TAX_BRACKETS ! k) * 100) 1)"
proof (intro conjI impI; elim conjE)
  assume t: "US_TAX_BRACKETS (us_filing filing) = Some table" and i: "i < length table"
    and le: "le_bound (us_taxable gross filing) (fst (table ! i))"
    and pr: "i = 0 \<or> \<not> le_bound (us_taxable gross filing) (fst (table ! (i - 1)))"
  from marg_rate_loop_band[OF us_tables_wellformed[OF t] i le pr]
    us_take_home_marginal[OF t, of gross state]
  show "\<exists>res. us_take_home gross filing state = Inr res
           \<and> marginal_rate res = py_round (snd (table ! i) * 100) 1"
    by simp
next
  assume k: "k < length UK_TAX_BRACKETS"
    and le: "le_bound (uk_taxable gross) (fst (UK_TAX_BRACKETS ! k))"
    and pr: "k = 0 \<or> \<not> le_bound (uk_taxable gross) (fst (UK_TAX_BRACKETS ! (k - 1)))"
  have "bracket_table 0 UK_TAX_BRACKETS" by (simp add: UK_TAX_BRACKETS_def)
  from marg_rate_loop_band[OF this k le pr]
  show "marginal_rate (uk_take_home gross) = py_round (snd (UK_TAX_BRACKETS ! k) * 100) 1"
    by (simp add: uk_take_home_marginal)
qed


theorem marginal_rate_of_band_witness:
  "(US_TAX_BRACKETS (us_filing ''single'') =
      Some [(Finite 11925, 10 / 100), (Finite 48475, 12 / 100), (Finite 103350, 22 / 100),
            (Finite 197300, 24 / 100), (Finite 250525, 32 / 100), (Finite 626350, 35 / 100),
            (PosInf, 37 / 100)]
    \<and> us_taxable 26925 ''single'' = 11925
    \<and> (\<exists>res. us_take_home 26925 ''single'' ''TX'' = Inr res \<and> marginal_rate res = 10))
   \<and> (uk_taxable 80000 = 67430
    \<and> \<not> le_bound (uk_taxable 80000) (fst (UK_TAX_BRACKETS ! 0))
    \<and> le_bound (uk_taxable 80000) (fst (UK_TAX_BRACKETS ! 1))
    \<and> marginal_rate (uk_take_home 80000) = 40)"
proof -
  define single where "single =
    [(Finite 11925, 10 / 100 :: rat), (Finite 48475, 12 / 100), (Finite 103350, 22 / 100),
     (Finite 197300, 24 / 100), (Finite 250525, 32 / 100), (Finite 626350, 35 / 100),
     (PosInf, 37 / 100)]"
  have t: "US_TAX_BRACKETS (us_filing ''single'') = Some single"
    by (simp add: us_filing_def US_TAX_BRACKETS_def single_def)
  have x: "us_taxable 26925 ''single'' = 11925"
    by (simp add: us_taxable_def us_filing_def US_TAX_BRACKETS_def US_STANDARD_DEDUCTION_def)
  have y: "uk_taxable 80000 = 67430"
    by (simp add: uk_taxable_def UK_PERSONAL_ALLOWANCE_def UK_PA_TAPER_START_def)
  have r10: "py_round 10 (Suc 0) = 10" and r40: "py_round 40 (Suc 0) = 40"
    using round_half_even_of_int[of 100] round_half_even_of_int[of 400]
    by (simp_all add: py_round_def)
  have us: "\<exists>res. us_take_home 26925 ''single'' ''TX'' = Inr res \<and> marginal_rate res = 10"
  proof -
    have "US_TAX_BRACKETS (us_filing ''single'') = Some single \<and> 0 < length single
        \<and> le_bound (us_taxable 26925 ''single'') (fst (single ! 0))
        \<and> (0 = (0 :: nat) \<or> \<not> le_bound (us_taxable 26925 ''single'') (fst (single ! (0 - 1))))"
      by (simp add: t x) (simp add: single_def)
    with marginal_rate_of_band[where filing = "''single''" and table = single and i = 0
        and gross = 26925 and state = "''TX''" and k = 0]
    have "\<exists>res. us_take_home 26925 ''single'' ''TX'' = Inr res
            \<and> marginal_rate res = py_round (snd (single ! 0) * 100) 1"
      by blast
    then show ?thesis by (simp add: single_def r10)
  qed
  have uk: "marginal_rate (uk_take_home 80000) = 40"
  proof -
    have "1 < length UK_TAX_BRACKETS
        \<and> le_bound (uk_taxable 80000) (fst (UK_TAX_BRACKETS ! 1))
        \<and> (1 = (0 :: nat) \<or> \<not> le_bound (uk_taxable 80000) (fst (UK_TAX_BRACKETS ! (1 - 1))))"
      by (simp add: y UK_TAX_BRACKETS_def)
    with marginal_rate_of_band[where filing = "''single''" and table = single and i = 0
        and gross = 80000 and state = "''TX''" and k = 1]
    have "marginal_rate (uk_take_home 80000) = py_round (snd (UK_TAX_BRACKETS ! 1) * 100) 1"
      by blast
    then show ?thesis by (simp add: UK_TAX_BRACKETS_def r40)
  qed
  show ?thesis
    using t x y us uk by (simp add: single_def UK_TAX_BRACKETS_def)
qed

text \<open>
  C7 as stated fails at a bound. A single filer with a gross income of 26925 has a
  taxable income of 11925, the upper bound of the 10% bracket, and the reported rate is
  10, not the 12 of the next bracket. In the UK a gross income of 62840 gives a taxable
  income of 50270, the upper bound of the 20% bracket, and the reported rate is 20.
\<close>

theorem marginal_rate_counterexample:
  "us_taxable 26925 ''single'' = 11925
   \<and> take 2 (the (US_TAX_BRACKETS ''single'')) = [(Finite 11925, 10 / 100), (Finite 48475, 12 / 100)]
   \<and> map_sum id marginal_rate (us_take_home 26925 ''single'' ''TX'') = Inr 10
   \<and> uk_taxable 62840 = 50270
   \<and> take 2 UK_TAX_BRACKETS = [(Finite 50270, 20 / 100), (Finite 125140, 40 / 100)]
   \<and> marginal_rate (uk_take_home 62840) = 20"
  by code_simp


section \<open>Fallbacks of the US take-home computation\<close>

lemma us_filing_unknown:
  assumes "filing \<notin> {''single'', ''mfj'', ''hoh''}"
  shows "us_filing filing = ''single''"
  using assms by (simp add: us_filing_def US_TAX_BRACKETS_def)

lemma us_filing_single: "us_filing ''single'' = ''single''"
  by (simp add: us_filing_def)

lemma us_take_home_filing:
  "us_filing f = us_filing g \<Longrightarrow> us_take_home gross f state = us_take_home gross g state"
  by (simp add: us_take_home_def us_taxable_def)

lemma us_take_home_state:
  assumes "US_STATE_TAX state = None"
  shows "us_take_home gross filing state = us_take_home gross filing ''other''"
  unfolding us_take_home_def us_other_rate assms option.case by (rule refl)

lemma us_take_home_returns: "\<exists>res. us_take_home gross filing state = Inr res"
  using us_filing_table[of filing]
  by (auto simp: us_take_home_def us_other_rate Let_def split_beta)

lemma freq_divisor_nonzero:
  "(case map_of [(''annual'', 1), (''monthly'', 12), (''biweekly'', 26)] pay_freq of
      Some d \<Rightarrow> d | None \<Rightarrow> (1 :: rat)) \<noteq> 0"
  by simp

lemma api_take_home_pay_cases:
  fixes data :: take_home_request
  defines "country \<equiv> str_upper (case req_country data of Some c \<Rightarrow> c | None \<Rightarrow> ''US'')"
  assumes g: "req_gross_income data = Some gross"
  shows "(country \<in> {''US'', ''UK'', ''IN''} \<longrightarrow> (\<exists>d. api_take_home_pay data = Inr (Ok d)))
       \<and> (country \<notin> {''US'', ''UK'', ''IN''} \<longrightarrow>
            api_take_home_pay data = Inr (Unprocessable ''Country must be US, UK, or IN''))"
proof -
  define filing where
    "filing = str_lower (case req_filing_status data of Some f \<Rightarrow> f | None \<Rightarrow> ''single'')"
  define state where "state = (case req_state data of Some s \<Rightarrow> s | None \<Rightarrow> ''other'')"
  obtain res where res: "us_take_home gross filing state = Inr res"
    using us_take_home_returns by blast
  have d: "\<And>x pay_freq. py_div x
        (case map_of [(''annual'', 1), (''monthly'', 12), (''biweekly'', 26)] pay_freq of
           Some d \<Rightarrow> d | None \<Rightarrow> (1 :: rat))
      = Inr (x / (case map_of [(''annual'', 1), (''monthly'', 12), (''biweekly'', 26)] pay_freq of
           Some d \<Rightarrow> d | None \<Rightarrow> (1 :: rat)))"
    using freq_divisor_nonzero unfolding py_div_def by (simp only: if_False)
  show ?thesis
    unfolding api_take_home_pay_def g option.case Let_def country_def[symmetric]
      filing_def[symmetric] state_def[symmetric] d
    by (simp add: res)
qed

text \<open>
  C10: for every gross income, an unknown filing status gives the result of \<open>single\<close>,
  an unknown state the result of \<open>other\<close>, the US computation always returns a result,
  and the route, given a gross income, raises nothing and answers with an error exactly
  when the country code, in upper case, is none of US, UK and IN.
\<close>

theorem us_take_home_fallbacks:
  "req_gross_income data = Some gross' \<Longrightarrow>
   (filing \<notin> {''single'', ''mfj'', ''hoh''} \<longrightarrow>
      us_take_home gross filing state = us_take_home gross ''single'' state)
   \<and> (US_STATE_TAX state = None \<longrightarrow>
      us_take_home gross filing state = us_take_home gross filing ''other'')
   \<and> (\<exists>res. us_take_home gross filing state = Inr res)
   \<and> (\<exists>resp. api_take_home_pay data = Inr resp)
   \<and> ((\<exists>msg. api_take_home_pay data = Inr (Unprocessable msg)) \<longleftrightarrow>
        str_upper (case req_country data of Some c \<Rightarrow> c | None \<Rightarrow> ''US'')
          \<notin> {''US'', ''UK'', ''IN''})"
proof -
  assume g: "req_gross_income data = Some gross'"
  have a: "filing \<notin> {''single'', ''mfj'', ''hoh''} \<longrightarrow>
      us_take_home gross filing state = us_take_home gross ''single'' state"
    using us_take_home_filing[of filing "''single''" gross state]
    by (auto simp: us_filing_unknown us_filing_single simp del: insert_iff)
  have b: "US_STATE_TAX state = None \<longrightarrow>
      us_take_home gross filing state = us_take_home gross filing ''other''"
    by (simp add: us_take_home_state)
  note c = api_take_home_pay_cases[OF g]
  have d: "\<exists>resp. api_take_home_pay data = Inr resp"
    using c by (cases "str_upper (case req_country data of Some c \<Rightarrow> c | None \<Rightarrow> ''US'')
          \<in> {''US'', ''UK'', ''IN''}") (auto simp del: insert_iff)
  have e: "(\<exists>msg. api_take_home_pay data = Inr (Unprocessable msg)) \<longleftrightarrow>
        str_upper (case req_country data of Some c \<Rightarrow> c | None \<Rightarrow> ''US'')
          \<notin> {''US'', ''UK'', ''IN''}"
    using c by (cases "str_upper (case req_country data of Some c \<Rightarrow> c | None \<Rightarrow> ''US'')
          \<in> {''US'', ''UK'', ''IN''}") (auto simp del: insert_iff)
  from a b us_take_home_returns[of gross filing state] d e show ?thesis by blast
qed

theorem us_take_home_fallbacks_witness:
  "''joint'' \<notin> {''single'', ''mfj'', ''hoh''} \<and> US_STATE_TAX ''ca'' = None
   \<and> us_take_home 80000 ''joint'' ''ca'' = us_take_home 80000 ''single'' ''ca''
   \<and> us_take_home 80000 ''joint'' ''ca'' = us_take_home 80000 ''joint'' ''other''
   \<and> str_upper ''fr'' \<notin> {''US'', ''UK'', ''IN''}
   \<and> (\<exists>msg. api_take_home_pay
          \<lparr>req_gross_income = Some 80000, req_country = Some ''fr'', req_filing_status = None,
           req_state = None, req_pay_frequency = None, req_regime = None\<rparr>
        = Inr (Unprocessable msg))"
proof -
  have f: "''joint'' \<notin> {''single'', ''mfj'', ''hoh''}" by simp
  have s: "US_STATE_TAX ''ca'' = None" by (simp add: US_STATE_TAX_def)
  have c: "str_upper ''fr'' \<notin> {''US'', ''UK'', ''IN''}"
    by code_simp
  have g: "req_gross_income
      \<lparr>req_gross_income = Some 80000, req_country = Some ''fr'', req_filing_status = None,
        req_state = None, req_pay_frequency = None, req_regime = None\<rparr> = Some 80000"
    by simp
  from us_take_home_fallbacks[OF g, of "''joint''" 80000 "''ca''"] f s c
  show ?thesis by auto
qed

section \<open>The breakeven year of rent versus buy\<close>

lemma rvb_year_row:
  "\<exists>row. st_yearly (rvb_year data loan monthly_pmt amort yr st) = st_yearly st @ [row]
         \<and> yr_year row = yr
         \<and> st_breakeven_year (rvb_year data loan monthly_pmt amort yr st) =
             (if st_breakeven_year st = None \<and> yr_rent_net_worth row \<le> yr_buy_net_worth row
              then Some yr else st_breakeven_year st)"
  by (simp add: rvb_year_def Let_def)

lemma first_crossing_step:
  assumes "first_crossing be Y" "\<forall>r \<in> set Y. yr_year r < yr_year row"
  shows "first_crossing
           (if be = None \<and> yr_rent_net_worth row \<le> yr_buy_net_worth row
            then Some (yr_year row) else be) (Y @ [row])"
proof (cases be)
  case None
  with assms show ?thesis
    by (auto simp: first_crossing_def)
next
  case (Some y)
  with assms(1) obtain r where "r \<in> set Y" "yr_year r = y"
    by (auto simp: first_crossing_def)
  with assms(2) have "y < yr_year row" by auto
  with Some assms(1) show ?thesis
    by (auto simp: first_crossing_def)
qed

lemma rvb_loop_crossing:
  assumes "first_crossing (st_breakeven_year st) (st_yearly st)"
    and "\<forall>r \<in> set (st_yearly st). \<forall>y \<in> set yrs. yr_year r < y"
    and "sorted_wrt (<) yrs"
  shows "first_crossing (st_breakeven_year (rvb_loop data loan monthly_pmt amort st yrs))
           (st_yearly (rvb_loop data loan monthly_pmt amort st yrs))
       \<and> map yr_year (st_yearly (rvb_loop data loan monthly_pmt amort st yrs))
           = map yr_year (st_yearly st) @ yrs"
  using assms
proof (induction yrs arbitrary: st)
  case Nil
  then show ?case by simp
next
  case (Cons yr yrs)
  define st' where "st' = rvb_year data loan monthly_pmt amort yr st"
  from rvb_year_row[of data loan monthly_pmt amort yr st]
  obtain row where Y: "st_yearly st' = st_yearly st @ [row]" and y: "yr_year row = yr"
    and be: "st_breakeven_year st' =
             (if st_breakeven_year st = None \<and> yr_rent_net_worth row \<le> yr_buy_net_worth row
              then Some yr else st_breakeven_year st)"
    unfolding st'_def by blast
  have before: "\<forall>r \<in> set (st_yearly st). yr_year r < yr_year row"
    using Cons.prems(2) y by simp
  have 1: "first_crossing (st_breakeven_year st') (st_yearly st')"
    using first_crossing_step[OF Cons.prems(1) before] unfolding Y be y .
  have 2: "\<forall>r \<in> set (st_yearly st'). \<forall>z \<in> set yrs. yr_year r < z"
    using Cons.prems(2,3) y by (auto simp: Y)
  have 3: "sorted_wrt (<) yrs" using Cons.prems(3) by simp
  from Cons.IH[OF 1 2 3] show ?case
    by (simp add: Y y flip: st'_def)
qed

lemma sorted_wrt_upto: "sorted_wrt (<) [i..j]"
  using sorted_wrt_upto[of i j] by simp


lemma api_rent_vs_buy_result:
  assumes "api_rent_vs_buy data = Inr (Ok res)"
  obtains monthly_pmt amort loan st where
    "st = rvb_loop data loan monthly_pmt amort
            \<lparr>st_home_value = rvb_home_price data, st_rent = rvb_monthly_rent data,
             st_renter_portfolio = rvb_home_price data * rvb_down_payment_pct data / 100,
             st_cumulative_buy_cost = rvb_home_price data * rvb_down_payment_pct data / 100,
             st_cumulative_rent_cost = 0,
             st_breakeven_year = None, st_yearly = []\<rparr>
            [1..min (rvb_years data) 30]"
    "breakeven_year_out res = st_breakeven_year st"
    "yearly_comparison res = st_yearly st"
  using assms
  by (auto simp: api_rent_vs_buy_def Let_def split: sum.splits if_splits)

text \<open>
  C8: the breakeven year of the answer is the first year of the comparison, the years
  being 1 to the horizon, in which the buyer's rounded net worth is at least the renter's,
  and it is null when there is no such year.
\<close>

theorem breakeven_year_is_first:
  assumes "api_rent_vs_buy data = Inr (Ok res)"
  shows "map yr_year (yearly_comparison res) = [1..min (rvb_years data) 30]
       \<and> first_crossing (breakeven_year_out res) (yearly_comparison res)"
proof -
  from assms obtain monthly_pmt amort loan st where
    st: "st = rvb_loop data loan monthly_pmt amort
            \<lparr>st_home_value = rvb_home_price data, st_rent = rvb_monthly_rent data,
             st_renter_portfolio = rvb_home_price data * rvb_down_payment_pct data / 100,
             st_cumulative_buy_cost = rvb_home_price data * rvb_down_payment_pct data / 100,
             st_cumulative_rent_cost = 0,
             st_breakeven_year = None, st_yearly = []\<rparr>
            [1..min (rvb_years data) 30]"
    and be: "breakeven_year_out res = st_breakeven_year st"
    and Y: "yearly_comparison res = st_yearly st"
    by (rule api_rent_vs_buy_result)
  show ?thesis
    unfolding be Y st
    using rvb_loop_crossing[where yrs = "[1..min (rvb_years data) 30]" and data = data
        and loan = loan and monthly_pmt = monthly_pmt and amort = amort
        and st = "\<lparr>st_home_value = rvb_home_price data, st_rent = rvb_monthly_rent data,
             st_renter_portfolio = rvb_home_price data * rvb_down_payment_pct data / 100,
             st_cumulative_buy_cost = rvb_home_price data * rvb_down_payment_pct data / 100,
             st_cumulative_rent_cost = 0,
             st_breakeven_year = None, st_yearly = []\<rparr>"]
    by (simp add: first_crossing_def sorted_wrt_upto)
qed

theorem breakeven_year_is_first_witness:
  "api_rent_vs_buy
     \<lparr>rvb_home_price = 100000, rvb_down_payment_pct = 20, rvb_mortgage_rate = 0,
      rvb_term_years = 0, rvb_annual_home_growth = 10, rvb_monthly_rent = 1000,
      rvb_annual_rent_increase = 0, rvb_investment_return = 0, rvb_property_tax_rate = 1,
      rvb_maintenance_pct = 1, rvb_insurance_monthly = 100, rvb_years = 2\<rparr>
   = Inr (Ok \<lparr>breakeven_year_out = Some 1, buy_net_worth_at_horizon = 41000,
              rent_net_worth_at_horizon = 20000, recommendation = ''BUY'',
              yearly_comparison =
                [\<lparr>yr_year = 1, yr_buy_net_worth = 30000, yr_rent_net_worth = 20000,
                   yr_cumulative_buy_cost = 23200, yr_cumulative_rent_cost = 12000\<rparr>,
                 \<lparr>yr_year = 2, yr_buy_net_worth = 41000, yr_rent_net_worth = 20000,
                   yr_cumulative_buy_cost = 26400, yr_cumulative_rent_cost = 24000\<rparr>]\<rparr>)
   \<and> first_crossing (Some 1)
        [\<lparr>yr_year = 1, yr_buy_net_worth = 30000, yr_rent_net_worth = 20000,
           yr_cumulative_buy_cost = 23200, yr_cumulative_rent_cost = 12000\<rparr>,
         \<lparr>yr_year = 2, yr_buy_net_worth = 41000, yr_rent_net_worth = 20000,
           yr_cumulative_buy_cost = 26400, yr_cumulative_rent_cost = 24000\<rparr>]"
proof -
  have run: "api_rent_vs_buy
     \<lparr>rvb_home_price = 100000, rvb_down_payment_pct = 20, rvb_mortgage_rate = 0,
      rvb_term_years = 0, rvb_annual_home_growth = 10, rvb_monthly_rent = 1000,
      rvb_annual_rent_increase = 0, rvb_investment_return = 0, rvb_property_tax_rate = 1,
      rvb_maintenance_pct = 1, rvb_insurance_monthly = 100, rvb_years = 2\<rparr>
   = Inr (Ok \<lparr>breakeven_year_out = Some 1, buy_net_worth_at_horizon = 41000,
              rent_net_worth_at_horizon = 20000, recommendation = ''BUY'',
              yearly_comparison =
                [\<lparr>yr_year = 1, yr_buy_net_worth = 30000, yr_rent_net_worth = 20000,
                   yr_cumulative_buy_cost = 23200, yr_cumulative_rent_cost = 12000\<rparr>,
                 \<lparr>yr_year = 2, yr_buy_net_worth = 41000, yr_rent_net_worth = 20000,
                   yr_cumulative_buy_cost = 26400, yr_cumulative_rent_cost = 24000\<rparr>]\<rparr>)"
    by code_simp
  from breakeven_year_is_first[OF run] run show ?thesis by simp
qed

text \<open>
  The route does answer when the horizon is at least one year and the monthly payment
  has a value.
\<close>

lemma api_rent_vs_buy_returns:
  assumes "1 \<le> rvb_years data"
    and "monthly_payment
           (rvb_home_price data - rvb_home_price data * rvb_down_payment_pct data / 100)
           (rvb_mortgage_rate data) (rvb_term_years data * 12) = Inr monthly_pmt"
  shows "\<exists>res. api_rent_vs_buy data = Inr (Ok res)"
proof -
  define loan where
    "loan = rvb_home_price data - rvb_home_price data * rvb_down_payment_pct data / 100"
  define amort where "amort = amortize_loop (rvb_mortgage_rate data / 100 / 12) monthly_pmt loan []
      [1..rvb_term_years data * 12]"
  define st where "st = rvb_loop data loan monthly_pmt amort
            \<lparr>st_home_value = rvb_home_price data, st_rent = rvb_monthly_rent data,
             st_renter_portfolio = rvb_home_price data * rvb_down_payment_pct data / 100,
             st_cumulative_buy_cost = rvb_home_price data * rvb_down_payment_pct data / 100,
             st_cumulative_rent_cost = 0,
             st_breakeven_year = None, st_yearly = []\<rparr>
            [1..min (rvb_years data) 30]"
  have am: "amortize loan (rvb_mortgage_rate data) (rvb_term_years data * 12) = Inr amort"
    using assms(2) by (simp add: amortize_def amort_def loan_def)
  have "map yr_year (st_yearly st) = [1..min (rvb_years data) 30]"
    unfolding st_def
    using rvb_loop_crossing[where yrs = "[1..min (rvb_years data) 30]" and data = data
        and loan = loan and monthly_pmt = monthly_pmt and amort = amort
        and st = "\<lparr>st_home_value = rvb_home_price data, st_rent = rvb_monthly_rent data,
             st_renter_portfolio = rvb_home_price data * rvb_down_payment_pct data / 100,
             st_cumulative_buy_cost = rvb_home_price data * rvb_down_payment_pct data / 100,
             st_cumulative_rent_cost = 0,
             st_breakeven_year = None, st_yearly = []\<rparr>"]
    by (simp add: first_crossing_def sorted_wrt_upto)
  moreover have "[1..min (rvb_years data) 30] \<noteq> []" using assms(1) by simp
  ultimately have ne: "st_yearly st \<noteq> []" by auto
  show ?thesis
    using assms(2) am ne
    by (simp add: api_rent_vs_buy_def Let_def flip: loan_def st_def)
qed

section \<open>The payoff simulation\<close>















section \<open>The cap of 600 months\<close>












end
